theory Spec2Isabelle
  imports Complex_Main
begin

section \<open>Python values and errors\<close>

text \<open>
  The exceptions that the modelled part of \<^verbatim>\<open>lstm_frag.py\<close> can raise. Every raise of the
  source is a value of this type.
\<close>

datatype error = ZeroDivisionError | ValueError | KeyError | IndexError | StopIteration

text \<open>
  An entry of the embedding store is a sequence of fields; a field is either metadata or a
  numeric vector. The store itself is a dictionary from token ids to entries.
\<close>

datatype entry_field = Meta string | Vec "real list"

type_synonym entry = "entry_field list"
type_synonym embeddings = "int \<rightharpoonup> entry"

text \<open>A batch is the pair \<^verbatim>\<open>(x, y)\<close> that the generator yields.\<close>

type_synonym batch = "real list list list \<times> int list list"

section \<open>Slices and reshapes\<close>

text \<open>
  \<^verbatim>\<open>xs[a:b]\<close> for non-negative bounds: bounds past the end are clipped, an empty range
  gives the empty list.
\<close>

definition slice :: "'a list \<Rightarrow> nat \<Rightarrow> nat \<Rightarrow> 'a list" where
  "slice xs a b = take (b - a) (drop a xs)"

text \<open>\<^verbatim>\<open>data[r0:r1, c0:c1]\<close> on a two-dimensional array held as a list of rows.\<close>

definition slice2 :: "'a list list \<Rightarrow> nat \<Rightarrow> nat \<Rightarrow> nat \<Rightarrow> nat \<Rightarrow> 'a list list" where
  "slice2 d r0 r1 c0 c1 = map (\<lambda>row. slice row c0 c1) (slice d r0 r1)"

text \<open>Row-major split of a flat sequence into \<open>rows\<close> rows of \<open>cols\<close> elements.\<close>

definition chunks :: "'a list \<Rightarrow> nat \<Rightarrow> nat \<Rightarrow> 'a list list" where
  "chunks xs rows cols = map (\<lambda>b. slice xs (b * cols) ((b + 1) * cols)) [0..<rows]"

text \<open>
  \<^verbatim>\<open>np.reshape(a, [rows, cols])\<close> and \<^verbatim>\<open>np.reshape(a, (d0, d1, d2))\<close> on the flat
  (row-major) contents of \<open>a\<close>: a \<^verbatim>\<open>ValueError\<close> unless the number of elements fits.
\<close>

definition np_reshape2 :: "'a list \<Rightarrow> nat \<Rightarrow> nat \<Rightarrow> error + 'a list list" where
  "np_reshape2 xs rows cols =
     (if length xs = rows * cols then Inr (chunks xs rows cols) else Inl ValueError)"

definition np_reshape3 :: "'a list \<Rightarrow> nat \<Rightarrow> nat \<Rightarrow> nat \<Rightarrow> error + 'a list list list" where
  "np_reshape3 xs d0 d1 d2 =
     (if length xs = d0 * d1 * d2
      then Inr (map (\<lambda>row. chunks row d1 d2) (chunks xs d0 (d1 * d2)))
      else Inl ValueError)"

text \<open>A list comprehension whose element expression may raise: the first raise wins.\<close>

fun comprehend :: "('a \<Rightarrow> error + 'b) \<Rightarrow> 'a list \<Rightarrow> error + 'b list" where
  "comprehend f [] = Inr []"
| "comprehend f (a # as) =
     (case f a of
        Inl e \<Rightarrow> Inl e
      | Inr b \<Rightarrow> (case comprehend f as of Inl e \<Rightarrow> Inl e | Inr bs \<Rightarrow> Inr (b # bs)))"

text \<open>
  The nested list of looked-up fields read as a numeric array (what \<^verbatim>\<open>np.reshape\<close> does
  to its list argument first): every field has to be a vector, and all vectors have the
  length of the first one; the result is the flat row-major contents. A list that is
  ragged or holds metadata is not a numeric array and is modelled as a \<^verbatim>\<open>ValueError\<close>.
\<close>

fun vec_of :: "entry_field \<Rightarrow> error + real list" where
  "vec_of (Vec v) = Inr v"
| "vec_of (Meta m) = Inl ValueError"

definition np_flat :: "entry_field list list \<Rightarrow> error + real list" where
  "np_flat xf =
     (case comprehend vec_of (concat xf) of
        Inl e \<Rightarrow> Inl e
      | Inr vs \<Rightarrow>
          (case vs of
             [] \<Rightarrow> Inr []
           | v0 # _ \<Rightarrow>
               if list_all (\<lambda>v. length v = length v0) vs then Inr (concat vs)
               else Inl ValueError))"

text \<open>\<^verbatim>\<open>range(0, stop, step)\<close> for a positive step.\<close>

definition py_range :: "int \<Rightarrow> nat \<Rightarrow> nat list" where
  "py_range stop step = map (\<lambda>k. k * step) [0..<nat ((stop + int step - 1) div int step)]"

section \<open>The windowing generator\<close>

text \<open>
  \<^verbatim>\<open>embeddings[int(elem)][2]\<close>: a missing id is a \<^verbatim>\<open>KeyError\<close>, an entry with fewer than
  three fields an \<^verbatim>\<open>IndexError\<close>.
\<close>

definition lookup_embedding :: "embeddings \<Rightarrow> int \<Rightarrow> error + entry_field" where
  "lookup_embedding emb elem =
     (case emb elem of
        None \<Rightarrow> Inl KeyError
      | Some e \<Rightarrow> if 2 < length e then Inr (e ! 2) else Inl IndexError)"

text \<open>What one pass through the body of the \<^verbatim>\<open>for i in range(...)\<close> loop does.\<close>

datatype step_result = Yield batch | Break | Raise error

definition window_body ::
  "embeddings \<Rightarrow> nat \<Rightarrow> nat \<Rightarrow> nat \<Rightarrow> int list list \<Rightarrow> nat \<Rightarrow> step_result" where
  "window_body emb num_steps batch_size embedding_size data i =
     (case comprehend (comprehend (lookup_embedding emb))
             (slice2 data 0 batch_size (i * num_steps) ((i + 1) * num_steps)) of
        Inl e \<Rightarrow> Raise e
      | Inr xf \<Rightarrow>
          let yw = slice2 data 0 batch_size (i * num_steps + 1) ((i + 1) * num_steps + 1) in
          (case xf of
             [] \<Rightarrow> Raise IndexError
           | x0 # _ \<Rightarrow>
               if length x0 < num_steps then Break
               else
                 (case np_flat xf of
                    Inl e \<Rightarrow> Raise e
                  | Inr flat \<Rightarrow>
                      (case np_reshape3 flat batch_size num_steps embedding_size of
                         Inl e \<Rightarrow> Raise e
                       | Inr xa \<Rightarrow>
                           (case np_reshape2 (concat yw) batch_size num_steps of
                              Inl e \<Rightarrow> Raise e
                            | Inr ya \<Rightarrow> Yield (xa, ya))))))"

text \<open>
  The \<^verbatim>\<open>for i in range(...)\<close> loop of one file: the batches it yields, in order, and how
  it ends (\<open>None\<close>: the range is exhausted or the loop breaks; \<open>Some e\<close>: it raises \<open>e\<close>
  after the batches listed).
\<close>

fun for_loop ::
  "embeddings \<Rightarrow> nat \<Rightarrow> nat \<Rightarrow> nat \<Rightarrow> int list list \<Rightarrow> nat list \<Rightarrow> batch list \<times> error option"
where
  "for_loop emb num_steps batch_size embedding_size data [] = ([], None)"
| "for_loop emb num_steps batch_size embedding_size data (i # is) =
     (case window_body emb num_steps batch_size embedding_size data i of
        Break \<Rightarrow> ([], None)
      | Raise e \<Rightarrow> ([], Some e)
      | Yield b \<Rightarrow>
          (case for_loop emb num_steps batch_size embedding_size data is of
             (bs, r) \<Rightarrow> (b # bs, r)))"

text \<open>
  The body of \<^verbatim>\<open>for file_name in files\<close> for one file whose parsed content is
  \<open>raw_list\<close> (the parser \<^verbatim>\<open>VectorManager.parse_into_list\<close> is not part of the file and its
  result is taken as given).
\<close>

definition file_batches ::
  "embeddings \<Rightarrow> nat \<Rightarrow> nat \<Rightarrow> nat \<Rightarrow> int list \<Rightarrow> batch list \<times> error option" where
  "file_batches emb num_steps batch_size embedding_size raw_list =
     (let n_words = length raw_list in
      if batch_size = 0 then ([], Some ZeroDivisionError)
      else
        let batch_len = n_words div batch_size in
        (case np_reshape2 (slice raw_list 0 (batch_size * batch_len)) batch_size batch_len of
           Inl e \<Rightarrow> ([], Some e)
         | Inr data \<Rightarrow>
             if num_steps = 0 then ([], Some ValueError)
             else for_loop emb num_steps batch_size embedding_size data
                    (py_range (int n_words - int num_steps) num_steps)))"

text \<open>
  The generator object. Its frame holds the arguments of \<^verbatim>\<open>generate_arrays_from_list\<close> and
  the point at which it is suspended: \<open>AtFile k\<close> before the \<open>k\<close>-th element of
  \<^verbatim>\<open>for file_name in files\<close> is taken (the generator starts at \<open>AtFile 0\<close>),
  \<open>InFile k raw_list j\<close> inside the \<open>k\<close>-th file with local \<open>raw_list\<close>, after the \<open>j\<close>-th
  \<^verbatim>\<open>yield\<close> of that file, \<open>Dead\<close> once an exception has left the generator. Every element
  of \<open>files\<close> is the parsed content of one file, the same on every cycle.
\<close>

datatype pc = AtFile nat | InFile nat "int list" nat | Dead

record generator =
  g_name :: string
  g_files :: "int list list"
  g_embeddings :: embeddings
  g_num_steps :: nat
  g_batch_size :: nat
  g_embedding_size :: nat
  g_n_vocab :: nat
  g_pc :: pc

definition generate_arrays_from_list ::
  "string \<Rightarrow> int list list \<Rightarrow> embeddings \<Rightarrow> nat \<Rightarrow> nat \<Rightarrow> nat \<Rightarrow> nat \<Rightarrow> generator" where
  "generate_arrays_from_list name files emb num_steps batch_size embedding_size n_vocab =
     \<lparr>g_name = name, g_files = files, g_embeddings = emb, g_num_steps = num_steps,
      g_batch_size = batch_size, g_embedding_size = embedding_size, g_n_vocab = n_vocab,
      g_pc = AtFile 0\<rparr>"

text \<open>
  \<^verbatim>\<open>generator.next()\<close>: the next batch or the exception raised, with the generator
  afterwards. \<^verbatim>\<open>while 1\<close> restarts the file list when it is exhausted, so a list of files
  none of which yields a batch makes the call run forever: that is the value \<open>None\<close>.
\<close>

partial_function (option) gen_next :: "generator \<Rightarrow> ((error + batch) \<times> generator) option" where
  "gen_next g =
     (case g_pc g of
        Dead \<Rightarrow> Some (Inl StopIteration, g)
      | AtFile k \<Rightarrow>
          if k < length (g_files g) then gen_next (g\<lparr>g_pc := InFile k (g_files g ! k) 0\<rparr>)
          else gen_next (g\<lparr>g_pc := AtFile 0\<rparr>)
      | InFile k raw_list j \<Rightarrow>
          (case file_batches (g_embeddings g) (g_num_steps g) (g_batch_size g)
                  (g_embedding_size g) raw_list of
             (bl, r) \<Rightarrow>
               if j < length bl then Some (Inr (bl ! j), g\<lparr>g_pc := InFile k raw_list (Suc j)\<rparr>)
               else
                 (case r of
                    Some e \<Rightarrow> Some (Inl e, g\<lparr>g_pc := Dead\<rparr>)
                  | None \<Rightarrow> gen_next (g\<lparr>g_pc := AtFile (Suc k)\<rparr>))))"

section \<open>Configurations\<close>

record config =
  init_scale :: real
  learning_rate :: real
  max_grad_norm :: nat
  num_layers :: nat
  num_steps :: nat
  hidden_size :: nat
  max_epoch :: nat
  max_max_epoch :: nat
  keep_prob :: real
  lr_decay :: real
  batch_size :: nat
  vocab_size :: nat
  embedding_size :: nat
  epoch_size :: int

definition SmallConfig :: config where
  "SmallConfig = \<lparr>init_scale = 0.1, learning_rate = 1.0, max_grad_norm = 5, num_layers = 1,
     num_steps = 20, hidden_size = 200, max_epoch = 4, max_max_epoch = 13, keep_prob = 1.0,
     lr_decay = 0.5, batch_size = 20, vocab_size = 126930, embedding_size = 200,
     epoch_size = 1\<rparr>"

definition MediumConfig :: config where
  "MediumConfig = \<lparr>init_scale = 0.05, learning_rate = 1.0, max_grad_norm = 5, num_layers = 1,
     num_steps = 35, hidden_size = 650, max_epoch = 6, max_max_epoch = 39, keep_prob = 0.5,
     lr_decay = 0.8, batch_size = 20, vocab_size = 126930, embedding_size = 200,
     epoch_size = 1\<rparr>"

definition LargeConfig :: config where
  "LargeConfig = \<lparr>init_scale = 0.04, learning_rate = 1.0, max_grad_norm = 10, num_layers = 1,
     num_steps = 35, hidden_size = 1024, max_epoch = 14, max_max_epoch = 55, keep_prob = 0.35,
     lr_decay = 1 / 1.15, batch_size = 20, vocab_size = 126930, embedding_size = 1000,
     epoch_size = 1\<rparr>"

definition TestConfig :: config where
  "TestConfig = \<lparr>init_scale = 0.1, learning_rate = 1.0, max_grad_norm = 1, num_layers = 1,
     num_steps = 2, hidden_size = 2, max_epoch = 1, max_max_epoch = 1, keep_prob = 1.0,
     lr_decay = 0.5, batch_size = 10, vocab_size = 126930, embedding_size = 200,
     epoch_size = 1\<rparr>"

text \<open>\<^verbatim>\<open>get_config()\<close>, with the value of \<^verbatim>\<open>FLAGS.model\<close> as its argument.\<close>

definition get_config :: "string \<Rightarrow> error + config" where
  "get_config model =
     (if model = ''small'' then Inr SmallConfig
      else if model = ''medium'' then Inr MediumConfig
      else if model = ''large'' then Inr LargeConfig
      else if model = ''test'' then Inr TestConfig
      else Inl ValueError)"

text \<open>
  \<^verbatim>\<open>get_epoch_size(files, config)\<close>. The word count that \<^verbatim>\<open>wc -w\<close> reports for each file
  is the input; \<^verbatim>\<open>//\<close> raises on a zero divisor.
\<close>

definition get_epoch_size :: "nat list \<Rightarrow> config \<Rightarrow> error + int" where
  "get_epoch_size word_counts c =
     (let total = sum_list (map int word_counts) in
      if batch_size c = 0 then Inl ZeroDivisionError
      else if num_steps c = 0 then Inl ZeroDivisionError
      else Inr (((total div int (batch_size c)) - 1) div int (num_steps c)))"

section \<open>Objects and the configuration phase of main\<close>

text \<open>
  Configuration objects live in a store, a list indexed by address; a variable of
  \<^verbatim>\<open>main\<close> holds an address. \<open>alloc\<close> is the creation of a new instance.
\<close>

type_synonym heap = "config list"

definition alloc :: "config \<Rightarrow> heap \<Rightarrow> nat \<times> heap" where
  "alloc c h = (length h, h @ [c])"

text \<open>
  What \<^verbatim>\<open>WPModel.__init__\<close> takes from its configuration: the reference itself
  (\<^verbatim>\<open>self.config = config\<close>) and the shapes of the two placeholders, fixed from the values
  the configuration has when the model is built.
\<close>

record wpmodel =
  m_config :: nat
  m_is_training :: bool
  inputs_shape :: "nat \<times> nat \<times> nat"
  targets_shape :: "nat \<times> nat"

definition WPModel :: "bool \<Rightarrow> nat \<Rightarrow> heap \<Rightarrow> wpmodel" where
  "WPModel is_training cfg h =
     \<lparr>m_config = cfg, m_is_training = is_training,
      inputs_shape = (batch_size (h ! cfg), num_steps (h ! cfg), embedding_size (h ! cfg)),
      targets_shape = (batch_size (h ! cfg), num_steps (h ! cfg))\<rparr>"

text \<open>A corpus file: the word count \<^verbatim>\<open>wc -w\<close> reports and its parsed token ids.\<close>

record corpus_file =
  wc_words :: nat
  tokens :: "int list"

record main_env =
  s_heap :: heap
  s_config :: nat
  s_valid_config :: nat
  s_eval_config :: nat
  gen_train :: generator
  gen_valid :: generator
  gen_test :: generator
  s_m :: wpmodel
  s_mvalid :: wpmodel
  s_mtest :: wpmodel

text \<open>
  \<^verbatim>\<open>main\<close> up to the construction of the three models. The arguments are the flags
  \<^verbatim>\<open>data_path\<close> and \<^verbatim>\<open>model\<close>, the embedding store read from disk and the three parts of the
  file list (the split at \<^verbatim>\<open>int(0.8 * len(files))\<close> and \<^verbatim>\<open>int(0.9 * len(files))\<close> is
  floating-point arithmetic and is taken as done).
\<close>

definition main_config_phase ::
  "string option \<Rightarrow> string \<Rightarrow> embeddings \<Rightarrow> corpus_file list \<Rightarrow> corpus_file list \<Rightarrow>
   corpus_file list \<Rightarrow> error + main_env" where
  "main_config_phase data_path model emb training_list validation_list testing_list =
     (if data_path = None \<or> data_path = Some [] then Inl ValueError
      else
        case get_config model of
          Inl e \<Rightarrow> Inl e
        | Inr c0 \<Rightarrow>
            let (cfg, h1) = alloc c0 [];
                h2 = h1[cfg := (h1 ! cfg)\<lparr>vocab_size := 126930\<rparr>];
                valid_cfg = cfg
            in
            (case get_config model of
               Inl e \<Rightarrow> Inl e
             | Inr c1 \<Rightarrow>
                 let (eval_cfg, h3) = alloc c1 h2;
                     h4 = h3[eval_cfg := (h3 ! eval_cfg)\<lparr>batch_size := 1\<rparr>];
                     h5 = h4[eval_cfg := (h4 ! eval_cfg)\<lparr>num_steps := 1\<rparr>];
                     h6 = h5[eval_cfg := (h5 ! eval_cfg)\<lparr>vocab_size := 126930\<rparr>]
                 in
                 (case get_epoch_size (map wc_words training_list) (h6 ! cfg) of
                    Inl e \<Rightarrow> Inl e
                  | Inr n_train \<Rightarrow>
                      let h7 = h6[cfg := (h6 ! cfg)\<lparr>epoch_size := n_train\<rparr>] in
                      (case get_epoch_size (map wc_words validation_list) (h7 ! valid_cfg) of
                         Inl e \<Rightarrow> Inl e
                       | Inr n_valid \<Rightarrow>
                           let h8 = h7[valid_cfg := (h7 ! valid_cfg)\<lparr>epoch_size := n_valid\<rparr>] in
                           (case get_epoch_size (map wc_words testing_list) (h8 ! eval_cfg) of
                              Inl e \<Rightarrow> Inl e
                            | Inr n_test \<Rightarrow>
                                let h9 = h8[eval_cfg := (h8 ! eval_cfg)\<lparr>epoch_size := n_test\<rparr>]
                                in
                                Inr \<lparr>s_heap = h9, s_config = cfg, s_valid_config = valid_cfg,
                                     s_eval_config = eval_cfg,
                                     gen_train = generate_arrays_from_list ''Train''
                                       (map tokens training_list) emb (num_steps (h9 ! cfg))
                                       (batch_size (h9 ! cfg)) (embedding_size (h9 ! cfg))
                                       (vocab_size (h9 ! cfg)),
                                     gen_valid = generate_arrays_from_list ''Validation''
                                       (map tokens validation_list) emb (num_steps (h9 ! cfg))
                                       (batch_size (h9 ! cfg)) (embedding_size (h9 ! cfg))
                                       (vocab_size (h9 ! cfg)),
                                     gen_test = generate_arrays_from_list ''Test''
                                       (map tokens testing_list) emb (num_steps (h9 ! cfg))
                                       (batch_size (h9 ! cfg)) (embedding_size (h9 ! cfg))
                                       (vocab_size (h9 ! cfg)),
                                     s_m = WPModel True cfg h9,
                                     s_mvalid = WPModel False valid_cfg h9,
                                     s_mtest = WPModel False eval_cfg h9\<rparr>)))))"

section \<open>Running an epoch\<close>

text \<open>
  The tensor engine is external. For one model it is given by the value of the model's
  \<^verbatim>\<open>initial_state\<close> (\<^verbatim>\<open>cell.zero_state(...)\<close>) and by what \<^verbatim>\<open>session.run(fetches, feed_dict)\<close>
  computes: from whether \<^verbatim>\<open>eval_op\<close> is fetched, the variables of the session, the fed
  state and the fed batch, the cost, the final state and the variables afterwards.
\<close>

record ('w, 's) engine =
  zero_state :: 's
  execute :: "bool \<Rightarrow> 'w \<Rightarrow> 's \<Rightarrow> batch \<Rightarrow> (real \<times> 's) \<times> 'w"

text \<open>
  The session holds the variables and records every run with a feed, oldest first: the
  state fed, the batch fed, the cost and the final state fetched.
\<close>

record ('w, 's) session =
  variables :: 'w
  runs :: "('s \<times> batch \<times> real \<times> 's) list"

definition fed_state :: "'s \<times> batch \<times> real \<times> 's \<Rightarrow> 's" where
  "fed_state r = fst r"

definition fetched_state :: "'s \<times> batch \<times> real \<times> 's \<Rightarrow> 's" where
  "fetched_state r = snd (snd (snd r))"

text \<open>
  The loop \<^verbatim>\<open>for step in range(config.epoch_size)\<close> of \<^verbatim>\<open>run_epoch\<close>, with \<open>n\<close> steps left.
  The progress line is not modelled, but its condition is:
  \<^verbatim>\<open>step % (config.epoch_size // 10)\<close> divides by zero when \<^verbatim>\<open>verbose\<close> is set and the epoch
  has fewer than ten steps.
\<close>

fun epoch_loop ::
  "('w, 's) engine \<Rightarrow> config \<Rightarrow> bool \<Rightarrow> bool \<Rightarrow> nat \<Rightarrow>
   ('w, 's) session \<times> generator \<times> 's \<times> real \<times> int \<Rightarrow>
   (error \<times> ('w, 's) session \<times> generator + ('w, 's) session \<times> generator \<times> 's \<times> real \<times> int) option"
where
  "epoch_loop E c eval_op verbose 0 (sess, gen, state, costs, iters) =
     Some (Inr (sess, gen, state, costs, iters))"
| "epoch_loop E c eval_op verbose (Suc n) (sess, gen, state, costs, iters) =
     (case gen_next gen of
        None \<Rightarrow> None
      | Some (Inl e, gen') \<Rightarrow> Some (Inl (e, sess, gen'))
      | Some (Inr b, gen') \<Rightarrow>
          (case execute E eval_op (variables sess) state b of
             ((cost, final_state), w') \<Rightarrow>
               let sess' = sess\<lparr>variables := w',
                                 runs := runs sess @ [(state, b, cost, final_state)]\<rparr>
               in
               if verbose \<and> epoch_size c div 10 = 0
               then Some (Inl (ZeroDivisionError, sess', gen'))
               else epoch_loop E c eval_op verbose n
                      (sess', gen', final_state, costs + cost, iters + int (num_steps c))))"

text \<open>
  \<^verbatim>\<open>run_epoch\<close>. The result is the pair \<open>(costs, iters)\<close> whose quotient the source passes to
  \<^verbatim>\<open>np.exp\<close>, with the session and the generator afterwards; \<open>None\<close> when a draw from the
  generator never returns. When no step has run, \<open>costs / iters\<close> is \<^verbatim>\<open>0.0 / 0\<close> and raises
  \<^verbatim>\<open>ZeroDivisionError\<close> (\<open>num_steps\<close> is at least 1 in every configuration that \<^verbatim>\<open>main\<close>
  builds, so \<open>iters\<close> is zero in no other case).
\<close>

definition run_epoch ::
  "('w, 's) engine \<Rightarrow> heap \<Rightarrow> ('w, 's) session \<Rightarrow> generator \<Rightarrow> wpmodel \<Rightarrow> bool \<Rightarrow> bool \<Rightarrow>
   (error \<times> ('w, 's) session \<times> generator + (real \<times> int) \<times> ('w, 's) session \<times> generator) option"
where
  "run_epoch E h sess gen model eval_op verbose =
     (let c = h ! m_config model;
          state = zero_state E
      in
      case epoch_loop E c eval_op verbose (nat (epoch_size c)) (sess, gen, state, 0, 0) of
        None \<Rightarrow> None
      | Some (Inl err) \<Rightarrow> Some (Inl err)
      | Some (Inr (sess', gen', state', costs, iters)) \<Rightarrow>
          if iters = 0 then Some (Inl (ZeroDivisionError, sess', gen'))
          else Some (Inr ((costs, iters), sess', gen')))"

section \<open>Concrete inputs and auxiliary functions\<close>

text \<open>
  A store in which the entry of token id \<open>k\<close> has three fields, the last being the
  one-element vector \<open>[k]\<close>: with it the emitted \<open>x\<close> shows which ids were embedded.
\<close>

definition id_embeddings :: embeddings where
  "id_embeddings k = Some [Meta ''id'', Meta ''word'', Vec [real_of_int k]]"

text \<open>A store whose entries have four fields, with different vectors at index 2 and at the end.\<close>

definition four_field_embeddings :: embeddings where
  "four_field_embeddings k = Some [Meta ''id'', Meta ''word'', Vec [1], Vec [2]]"

text \<open>The vector held by a field (used in proofs only).\<close>

fun the_vec :: "entry_field \<Rightarrow> real list" where
  "the_vec (Vec v) = v"
| "the_vec (Meta m) = []"

text \<open>The session that a result of \<open>run_epoch\<close> or of its loop leaves behind.\<close>

definition session_after ::
  "error \<times> ('w, 's) session \<times> generator + (real \<times> int) \<times> ('w, 's) session \<times> generator \<Rightarrow>
   ('w, 's) session" where
  "session_after res = (case res of Inl (e, sess, gen) \<Rightarrow> sess | Inr (p, sess, gen) \<Rightarrow> sess)"

definition loop_session ::
  "error \<times> ('w, 's) session \<times> generator + ('w, 's) session \<times> generator \<times> 's \<times> real \<times> int \<Rightarrow>
   ('w, 's) session" where
  "loop_session res = (case res of Inl (e, sess, gen) \<Rightarrow> sess | Inr (sess, rest) \<Rightarrow> sess)"

text \<open>
  A sequence of runs is chained from \<open>s\<close> when the first run is fed \<open>s\<close> and every later
  run is fed the final state fetched by the run before it.
\<close>

fun chained :: "'s \<Rightarrow> ('s \<times> batch \<times> real \<times> 's) list \<Rightarrow> bool" where
  "chained s [] = True"
| "chained s (r # rs) = (fed_state r = s \<and> chained (fetched_state r) rs)"

text \<open>
  An engine whose recurrent state counts the batches run since the state was last zero
  and whose cost is always 1; a configuration with \<open>batch_size = num_steps = 1\<close> and an
  epoch of one step; a generator over one file of three tokens, which yields two batches
  per pass over the file.
\<close>

definition counting_engine :: "(unit, nat) engine" where
  "counting_engine = \<lparr>zero_state = 0, execute = (\<lambda>eval_op w s b. ((1, Suc s), w))\<rparr>"

definition tiny_config :: config where
  "tiny_config = TestConfig\<lparr>num_steps := 1, batch_size := 1, embedding_size := 1, epoch_size := 1\<rparr>"

definition three_token_generator :: generator where
  "three_token_generator = generate_arrays_from_list ''Train'' [[1, 2, 3]] id_embeddings 1 1 1 126930"

text \<open>The shape of a nested list read as a two- or three-dimensional array.\<close>

definition has_shape2 :: "'a list list \<Rightarrow> nat \<times> nat \<Rightarrow> bool" where
  "has_shape2 a s = (case s of (d0, d1) \<Rightarrow> length a = d0 \<and> list_all (\<lambda>r. length r = d1) a)"

definition has_shape3 :: "'a list list list \<Rightarrow> nat \<times> nat \<times> nat \<Rightarrow> bool" where
  "has_shape3 a s =
     (case s of (d0, d1, d2) \<Rightarrow>
        length a = d0 \<and> list_all (\<lambda>r. length r = d1 \<and> list_all (\<lambda>v. length v = d2) r) a)"

text \<open>
  A store whose entries end in a zero vector of length 200, the \<open>embedding_size\<close> of the
  preset \<open>test\<close>, and a file of thirty tokens.
\<close>

definition zero_embeddings :: embeddings where
  "zero_embeddings k = Some [Meta ''id'', Meta ''word'', Vec (replicate 200 0)]"

definition thirty_tokens :: "int list" where
  "thirty_tokens = replicate 30 5"

text \<open>The vector that the lookup finds for a token id (the empty list when it finds none).\<close>

definition embedded_vec :: "embeddings \<Rightarrow> int \<Rightarrow> real list" where
  "embedded_vec emb tok = (case lookup_embedding emb tok of Inr f \<Rightarrow> the_vec f | Inl e \<Rightarrow> [])"

section \<open>Facts about slices, reshapes and comprehensions\<close>

lemma comprehend_Inr_map:
  "comprehend f as = Inr bs \<Longrightarrow> map f as = map Inr bs"
  by (induction as arbitrary: bs) (auto split: sum.splits)

lemma length_slice: "length (slice xs a b) = min (b - a) (length xs - a)"
  by (simp add: slice_def)

lemma nth_slice: "a + t < length xs \<Longrightarrow> t < b - a \<Longrightarrow> slice xs a b ! t = xs ! (a + t)"
  by (simp add: slice_def)

lemma slice_all: "length xs \<le> b \<Longrightarrow> slice xs 0 b = xs"
  by (simp add: slice_def)

lemma take_drop_concat:
  "\<forall>r \<in> set xss. length r = n \<Longrightarrow> b < length xss \<Longrightarrow>
   take n (drop (b * n) (concat xss)) = xss ! b"
proof (induction xss arbitrary: b)
  case Nil
  then show ?case by simp
next
  case (Cons r xss)
  show ?case
  proof (cases b)
    case 0
    with Cons.prems show ?thesis by simp
  next
    case (Suc b')
    with Cons show ?thesis by simp
  qed
qed

lemma chunks_concat:
  assumes "\<forall>r \<in> set xss. length r = n"
  shows "chunks (concat xss) (length xss) n = xss"
proof (rule nth_equalityI)
  show "length (chunks (concat xss) (length xss) n) = length xss"
    by (simp add: chunks_def)
next
  fix b assume "b < length (chunks (concat xss) (length xss) n)"
  then have b: "b < length xss" by (simp add: chunks_def)
  then show "chunks (concat xss) (length xss) n ! b = xss ! b"
    using take_drop_concat [OF assms b] by (simp add: chunks_def slice_def)
qed

lemma length_concat_uniform:
  "\<forall>r \<in> set xss. length r = n \<Longrightarrow> length (concat xss) = length xss * n"
  by (induction xss) auto

lemma chunks_nth:
  "b < rows \<Longrightarrow> c < cols \<Longrightarrow> rows * cols \<le> length xs \<Longrightarrow>
   chunks xs rows cols ! b ! c = xs ! (b * cols + c)"
proof -
  assume b: "b < rows" and c: "c < cols" and l: "rows * cols \<le> length xs"
  from b have "Suc b * cols \<le> rows * cols" by (intro mult_le_mono1) simp
  with l c have "b * cols + c < length xs" by simp
  with b c show ?thesis by (simp add: chunks_def slice_def)
qed

lemma chunks_row_length:
  "b < rows \<Longrightarrow> rows * cols \<le> length xs \<Longrightarrow> length (chunks xs rows cols ! b) = cols"
proof -
  assume b: "b < rows" and l: "rows * cols \<le> length xs"
  from b have "Suc b * cols \<le> rows * cols" by (intro mult_le_mono1) simp
  with l have "b * cols + cols \<le> length xs" by simp
  with b show ?thesis by (simp add: chunks_def slice_def)
qed

lemma vec_of_Inr: "vec_of f = Inr v \<longleftrightarrow> f = Vec v"
  by (cases f) auto

lemma map_vec_of_Inr: "map vec_of cells = map Inr vs \<Longrightarrow> cells = map Vec vs"
  by (induction cells arbitrary: vs) (auto simp: vec_of_Inr)

lemma concat_concat_map: "concat (concat xsss) = concat (map concat xsss)"
  by (induction xsss) auto

lemma np_flat_Inr:
  assumes "np_flat xf = Inr flat" and "concat xf \<noteq> []"
  shows "\<exists>xv L. xf = map (map Vec) xv \<and> flat = concat (map concat xv) \<and>
           (\<forall>r \<in> set xv. \<forall>v \<in> set r. length v = L)"
proof -
  from assms(1) obtain vs where c: "comprehend vec_of (concat xf) = Inr vs"
    by (auto simp: np_flat_def split: sum.splits)
  then have cells: "concat xf = map Vec vs"
    by (intro map_vec_of_Inr comprehend_Inr_map)
  with assms(2) obtain v0 vs' where vs: "vs = v0 # vs'" by (cases vs) auto
  with assms(1) c have u: "list_all (\<lambda>v. length v = length v0) vs" and flat: "flat = concat vs"
    by (auto simp: np_flat_def split: if_splits)
  define xv where "xv = map (map the_vec) xf"
  have isvec: "\<And>r f. r \<in> set xf \<Longrightarrow> f \<in> set r \<Longrightarrow> Vec (the_vec f) = f"
  proof -
    fix r f assume "r \<in> set xf" "f \<in> set r"
    then have "f \<in> set (concat xf)" by auto
    with cells show "Vec (the_vec f) = f" by auto
  qed
  have xf: "xf = map (map Vec) xv"
    unfolding xv_def by (simp add: map_idI isvec)
  have "map Vec (concat xv) = map Vec vs"
    using cells xf by (simp add: map_concat)
  then have vs_eq: "vs = concat xv"
    by (simp add: inj_map_eq_map inj_on_def)
  have "\<forall>r \<in> set xv. \<forall>v \<in> set r. length v = length v0"
    using u vs_eq by (auto simp: list_all_iff)
  with xf flat vs_eq show ?thesis
    by (auto simp: concat_concat_map)
qed

lemma np_reshape3_concat:
  assumes "np_reshape3 (concat (map concat xv)) bs ns es = Inr xa"
    and "length xv = bs" and "\<forall>r \<in> set xv. length r = ns"
    and "\<forall>r \<in> set xv. \<forall>v \<in> set r. length v = L" and "0 < bs" and "0 < ns"
  shows "L = es \<and> xa = xv"
proof -
  have rows: "\<forall>r \<in> set xv. length (concat r) = ns * L"
  proof
    fix r assume r: "r \<in> set xv"
    then have "\<forall>v \<in> set r. length v = L" using assms(4) by blast
    then have "length (concat r) = length r * L" by (rule length_concat_uniform)
    with r assms(3) show "length (concat r) = ns * L" by simp
  qed
  then have "\<forall>r \<in> set (map concat xv). length r = ns * L" by simp
  then have "length (concat (map concat xv)) = length (map concat xv) * (ns * L)"
    by (rule length_concat_uniform)
  then have len: "length (concat (map concat xv)) = bs * ns * L"
    using assms(2) by simp
  from assms(1) have sz: "length (concat (map concat xv)) = bs * ns * es"
    and xa: "xa = map (\<lambda>row. chunks row ns es) (chunks (concat (map concat xv)) bs (ns * es))"
    by (auto simp: np_reshape3_def split: if_splits)
  from len sz assms(5,6) have L: "L = es" by simp
  have "chunks (concat (map concat xv)) (length (map concat xv)) (ns * es) = map concat xv"
    using rows L by (intro chunks_concat) simp
  then have c1: "chunks (concat (map concat xv)) bs (ns * es) = map concat xv"
    using assms(2) by simp
  have "\<And>r. r \<in> set xv \<Longrightarrow> chunks (concat r) ns es = r"
  proof -
    fix r assume r: "r \<in> set xv"
    then have "\<forall>v \<in> set r. length v = es" using assms(4) L by blast
    then have "chunks (concat r) (length r) es = r" by (rule chunks_concat)
    with r assms(3) show "chunks (concat r) ns es = r" by simp
  qed
  then have "map (\<lambda>row. chunks row ns es) (map concat xv) = xv"
    by (simp add: map_idI)
  with xa c1 L show ?thesis by simp
qed

lemma np_reshape2_concat:
  assumes "np_reshape2 (concat yw) bs ns = Inr ya"
    and "length yw = bs" and "\<forall>r \<in> set yw. length r = w" and "0 < bs"
  shows "w = ns \<and> ya = yw"
proof -
  have len: "length (concat yw) = bs * w"
    using length_concat_uniform [OF assms(3)] assms(2) by simp
  from assms(1) have sz: "length (concat yw) = bs * ns" and ya: "ya = chunks (concat yw) bs ns"
    by (auto simp: np_reshape2_def split: if_splits)
  from len sz assms(4) have w: "w = ns" by simp
  have "chunks (concat yw) (length yw) ns = yw"
    using assms(3) w by (intro chunks_concat) simp
  with ya assms(2) w show ?thesis by simp
qed

section \<open>One pass through the loop body\<close>

lemma window_body_Yield:
  assumes Y: "window_body emb ns bs es data i = Yield (xa, ya)"
    and ld: "length data = bs" and rows: "\<forall>row \<in> set data. length row = bl"
    and bs: "0 < bs" and ns: "0 < ns"
  shows "i * ns + ns + 1 \<le> bl \<and> length xa = bs \<and> length ya = bs \<and>
         (\<forall>b < bs. length (xa ! b) = ns \<and> length (ya ! b) = ns \<and>
            (\<forall>t < ns. length (xa ! b ! t) = es \<and>
               lookup_embedding emb (data ! b ! (i * ns + t)) = Inr (Vec (xa ! b ! t)) \<and>
               ya ! b ! t = data ! b ! (i * ns + t + 1)))"
proof -
  define xids where "xids = map (\<lambda>row. slice row (i * ns) ((i + 1) * ns)) data"
  define yw where "yw = map (\<lambda>row. slice row (i * ns + 1) ((i + 1) * ns + 1)) data"
  have s2x: "slice2 data 0 bs (i * ns) ((i + 1) * ns) = xids"
    by (simp add: slice2_def slice_all ld xids_def)
  have s2y: "slice2 data 0 bs (i * ns + 1) ((i + 1) * ns + 1) = yw"
    by (simp add: slice2_def slice_all ld yw_def)
  from Y obtain xf x0 xr flat where
    cx: "comprehend (comprehend (lookup_embedding emb)) xids = Inr xf" and
    xf: "xf = x0 # xr" and wide: "\<not> length x0 < ns" and
    fl: "np_flat xf = Inr flat" and
    r3: "np_reshape3 flat bs ns es = Inr xa" and
    r2: "np_reshape2 (concat yw) bs ns = Inr ya"
    unfolding window_body_def s2x s2y Let_def
    by (auto split: sum.splits list.splits if_splits)
  have m1: "map (comprehend (lookup_embedding emb)) xids = map Inr xf"
    using cx by (rule comprehend_Inr_map)
  then have "length xids = length xf" by (rule map_eq_imp_length_eq)
  then have lxf: "length xf = bs" by (simp add: xids_def ld)
  have row_b: "map (lookup_embedding emb) (xids ! b) = map Inr (xf ! b)" if "b < bs" for b
  proof -
    from m1 have "map (comprehend (lookup_embedding emb)) xids ! b = map Inr xf ! b" by simp
    with that lxf have "comprehend (lookup_embedding emb) (xids ! b) = Inr (xf ! b)"
      by (simp add: xids_def ld)
    then show ?thesis by (rule comprehend_Inr_map)
  qed
  have drow: "length (data ! b) = bl" if "b < bs" for b
    using rows that ld by simp
  have lrow: "length (xf ! b) = min ns (bl - i * ns)" if "b < bs" for b
  proof -
    from row_b [OF that] have "length (xids ! b) = length (xf ! b)"
      by (rule map_eq_imp_length_eq)
    with that drow [OF that] show ?thesis
      by (simp add: xids_def ld length_slice)
  qed
  from lrow [OF bs] xf wide have "ns \<le> bl - i * ns" by simp
  with ns have xin: "i * ns + ns \<le> bl" by arith
  with lrow have lrow_ns: "length (xf ! b) = ns" if "b < bs" for b
    using that by simp
  from xf wide ns have "concat xf \<noteq> []" by auto
  from np_flat_Inr [OF fl this] obtain xv L where
    xfv: "xf = map (map Vec) xv" and flat: "flat = concat (map concat xv)" and
    uni: "\<forall>r \<in> set xv. \<forall>v \<in> set r. length v = L" by blast
  from xfv lxf have lxv: "length xv = bs" by simp
  have "\<forall>r \<in> set xv. length r = ns"
  proof
    fix r assume "r \<in> set xv"
    then obtain b where b: "b < length xv" "r = xv ! b" by (auto simp: in_set_conv_nth)
    with lrow_ns [of b] lxv xfv show "length r = ns" by simp
  qed
  from np_reshape3_concat [OF r3 [unfolded flat] lxv this uni bs ns]
  have L: "L = es" and xa: "xa = xv" by simp_all
  have lyw: "length yw = bs" by (simp add: yw_def ld)
  have "\<forall>r \<in> set yw. length r = min ns (bl - (i * ns + 1))"
    using rows by (auto simp: yw_def length_slice)
  from np_reshape2_concat [OF r2 lyw this bs]
  have w: "min ns (bl - (i * ns + 1)) = ns" and ya: "ya = yw" by simp_all
  from w ns have yin: "i * ns + ns + 1 \<le> bl" by simp
  have cellx: "length (xa ! b ! t) = es \<and>
       lookup_embedding emb (data ! b ! (i * ns + t)) = Inr (Vec (xa ! b ! t))"
    if "b < bs" "t < ns" for b t
  proof -
    from that lrow_ns [OF that(1)] xfv xa lxv
    have t: "t < length (xv ! b)" and cell: "xf ! b ! t = Vec (xa ! b ! t)" by simp_all
    from t that(1) lxv have "xv ! b ! t \<in> set (xv ! b)" "xv ! b \<in> set xv" by simp_all
    with uni L xa have len: "length (xa ! b ! t) = es" by blast
    from that xin drow [OF that(1)] have xi: "xids ! b ! t = data ! b ! (i * ns + t)"
      by (simp add: xids_def ld nth_slice)
    from that xin drow [OF that(1)] have tl: "t < length (xids ! b)"
      by (simp add: xids_def ld length_slice)
    from row_b [OF that(1)] have "map (lookup_embedding emb) (xids ! b) ! t = map Inr (xf ! b) ! t"
      by simp
    with tl that lrow_ns [OF that(1)] have "lookup_embedding emb (xids ! b ! t) = Inr (xf ! b ! t)"
      by simp
    with xi cell len show ?thesis by simp
  qed
  have celly: "ya ! b ! t = data ! b ! (i * ns + t + 1)" if "b < bs" "t < ns" for b t
    using that yin drow [OF that(1)] by (simp add: ya yw_def ld nth_slice add.commute add.left_commute)
  have lens: "length (xa ! b) = ns \<and> length (ya ! b) = ns" if "b < bs" for b
    using that lrow_ns [OF that] xfv xa lxv yin drow [OF that]
    by (simp add: ya yw_def ld length_slice)
  from yin lxv xa lyw ya cellx celly lens show ?thesis by simp
qed

lemma for_loop_nth:
  "for_loop emb ns bs es data js = (bl, r) \<Longrightarrow> k < length bl \<Longrightarrow>
   k < length js \<and> window_body emb ns bs es data (js ! k) = Yield (bl ! k)"
proof (induction js arbitrary: bl r k)
  case Nil
  then show ?case by simp
next
  case (Cons j js)
  from Cons.prems obtain b bl' where
    y: "window_body emb ns bs es data j = Yield b" and
    rest: "for_loop emb ns bs es data js = (bl', r)" and bl: "bl = b # bl'"
    by (auto split: step_result.splits prod.splits)
  show ?case
  proof (cases k)
    case 0
    with y bl show ?thesis by simp
  next
    case (Suc k')
    with Cons.prems(2) bl have "k' < length bl'" by simp
    from Cons.IH [OF rest this] Suc bl show ?thesis by simp
  qed
qed

lemma py_range_nth: "k < length (py_range stop step) \<Longrightarrow> py_range stop step ! k = k * step"
  by (simp add: py_range_def)

lemma reshape_file:
  assumes "0 < bs"
  shows "np_reshape2 (slice raw 0 (bs * (length raw div bs))) bs (length raw div bs) =
         Inr (chunks (slice raw 0 (bs * (length raw div bs))) bs (length raw div bs))"
proof -
  have "bs * (length raw div bs) \<le> length raw" by simp
  then have "length (slice raw 0 (bs * (length raw div bs))) = bs * (length raw div bs)"
    by (simp add: length_slice)
  then show ?thesis by (simp add: np_reshape2_def)
qed

lemma reshaped_rows:
  assumes "np_reshape2 (slice raw 0 (bs * (length raw div bs))) bs (length raw div bs) = Inr data"
  shows "length data = bs" and "\<forall>row \<in> set data. length row = length raw div bs"
    and "b < bs \<Longrightarrow> c < length raw div bs \<Longrightarrow>
         data ! b ! c = raw ! (b * (length raw div bs) + c)"
proof -
  let ?bl = "length raw div bs"
  let ?xs = "slice raw 0 (bs * ?bl)"
  from assms have len: "length ?xs = bs * ?bl" and data: "data = chunks ?xs bs ?bl"
    by (auto simp: np_reshape2_def split: if_splits)
  show l: "length data = bs" by (simp add: data chunks_def)
  show "\<forall>row \<in> set data. length row = ?bl"
  proof
    fix row assume "row \<in> set data"
    then obtain b where "b < bs" "row = data ! b" using l by (auto simp: in_set_conv_nth)
    with len show "length row = ?bl" by (simp add: data chunks_row_length)
  qed
  assume b: "b < bs" and c: "c < ?bl"
  from b have "Suc b * ?bl \<le> bs * ?bl" by (intro mult_le_mono1) simp
  with c len have "b * ?bl + c < bs * ?bl" by simp
  with b c len show "data ! b ! c = raw ! (b * ?bl + c)"
    by (simp add: data chunks_nth slice_def)
qed

lemma file_batches_nth:
  assumes fb: "file_batches emb ns bs es raw = (bl, r)"
    and data: "np_reshape2 (slice raw 0 (bs * (length raw div bs))) bs (length raw div bs) = Inr data"
    and k: "k < length bl"
  shows "0 < bs \<and> 0 < ns \<and> window_body emb ns bs es data (k * ns) = Yield (bl ! k)"
proof -
  from fb k have bs: "0 < bs" by (auto simp: file_batches_def Let_def split: if_splits)
  from fb k bs data have ns: "0 < ns" by (auto simp: file_batches_def Let_def split: if_splits)
  from fb bs ns data have
    "for_loop emb ns bs es data (py_range (int (length raw) - int ns) ns) = (bl, r)"
    by (simp add: file_batches_def Let_def)
  from for_loop_nth [OF this k] have
    "k < length (py_range (int (length raw) - int ns) ns)" and
    "window_body emb ns bs es data (py_range (int (length raw) - int ns) ns ! k) = Yield (bl ! k)"
    by simp_all
  with bs ns show ?thesis by (simp add: py_range_nth)
qed


lemma file_batches_cells:
  assumes "file_batches emb ns bs es raw = (bl, r)"
    and "np_reshape2 (slice raw 0 (bs * (length raw div bs))) bs (length raw div bs) = Inr data"
    and "k < length bl" and "b < bs" and "t < ns"
  shows "k * ns * ns + t + 1 < length raw div bs \<and>
         lookup_embedding emb (data ! b ! (k * ns * ns + t)) = Inr (Vec (fst (bl ! k) ! b ! t)) \<and>
         snd (bl ! k) ! b ! t = data ! b ! (k * ns * ns + t + 1)"
proof -
  let ?bl = "length raw div bs"
  let ?c = "k * ns * ns"
  obtain xa ya where xy: "bl ! k = (xa, ya)" by (cases "bl ! k")
  from file_batches_nth [OF assms(1,2,3)] xy have
    bs: "0 < bs" and ns: "0 < ns" and Y: "window_body emb ns bs es data (k * ns) = Yield (xa, ya)"
    by simp_all
  note rs = reshaped_rows [OF assms(2)]
  from window_body_Yield [OF Y rs(1) rs(2) bs ns] assms(4,5) have
    inside: "?c + ns + 1 \<le> ?bl" and
    x: "lookup_embedding emb (data ! b ! (?c + t)) = Inr (Vec (xa ! b ! t))" and
    y: "ya ! b ! t = data ! b ! (?c + t + 1)"
    by simp_all
  from inside assms(5) have "?c + t + 1 < ?bl" by simp
  with x y xy show ?thesis by simp
qed

section \<open>A window that fits is yielded\<close>

lemma comprehend_all:
  "\<forall>a \<in> set as. f a = Inr (g a) \<Longrightarrow> comprehend f as = Inr (map g as)"
  by (induction as) auto

lemma np_reshape3_fits:
  assumes "length xv = bs" and "\<forall>r \<in> set xv. length r = ns"
    and "\<forall>r \<in> set xv. \<forall>v \<in> set r. length v = es"
  shows "np_reshape3 (concat (map concat xv)) bs ns es = Inr xv"
proof -
  have rows: "\<forall>r \<in> set xv. length (concat r) = ns * es"
  proof
    fix r assume r: "r \<in> set xv"
    then have "\<forall>v \<in> set r. length v = es" using assms(3) by blast
    then have "length (concat r) = length r * es" by (rule length_concat_uniform)
    with r assms(2) show "length (concat r) = ns * es" by simp
  qed
  then have "\<forall>r \<in> set (map concat xv). length r = ns * es" by simp
  then have "length (concat (map concat xv)) = length (map concat xv) * (ns * es)"
    by (rule length_concat_uniform)
  then have len: "length (concat (map concat xv)) = bs * ns * es"
    using assms(1) by simp
  have "chunks (concat (map concat xv)) (length (map concat xv)) (ns * es) = map concat xv"
    using rows by (intro chunks_concat) simp
  then have c1: "chunks (concat (map concat xv)) bs (ns * es) = map concat xv"
    using assms(1) by simp
  have "\<And>r. r \<in> set xv \<Longrightarrow> chunks (concat r) ns es = r"
  proof -
    fix r assume r: "r \<in> set xv"
    then have "\<forall>v \<in> set r. length v = es" using assms(3) by blast
    then have "chunks (concat r) (length r) es = r" by (rule chunks_concat)
    with r assms(2) show "chunks (concat r) ns es = r" by simp
  qed
  then have "map (\<lambda>row. chunks row ns es) (map concat xv) = xv"
    by (simp add: map_idI)
  with len c1 show ?thesis by (simp add: np_reshape3_def)
qed

lemma np_reshape2_fits:
  assumes "length yw = bs" and "\<forall>r \<in> set yw. length r = ns"
  shows "np_reshape2 (concat yw) bs ns = Inr yw"
proof -
  have "length (concat yw) = bs * ns"
    using length_concat_uniform [OF assms(2)] assms(1) by simp
  moreover have "chunks (concat yw) (length yw) ns = yw"
    using assms(2) by (rule chunks_concat)
  ultimately show ?thesis using assms(1) by (simp add: np_reshape2_def)
qed

lemma np_flat_vectors:
  assumes "\<forall>r \<in> set xv. \<forall>v \<in> set r. length v = es"
  shows "np_flat (map (map Vec) xv) = Inr (concat (map concat xv))"
proof -
  have "concat (map (map Vec) xv) = map Vec (concat xv)" by (simp add: map_concat)
  moreover have "comprehend vec_of (map Vec (concat xv)) = Inr (map the_vec (map Vec (concat xv)))"
    by (rule comprehend_all) auto
  moreover have "map the_vec (map Vec (concat xv)) = concat xv" by (simp add: comp_def)
  ultimately have c: "comprehend vec_of (concat (map (map Vec) xv)) = Inr (concat xv)" by simp
  have "list_all (\<lambda>v. length v = length v0) (concat xv)" if "concat xv = v0 # vs" for v0 vs
  proof -
    from that have "v0 \<in> set (concat xv)" by simp
    with assms have "length v0 = es" by auto
    with assms show ?thesis by (auto simp: list_all_iff)
  qed
  note u = this
  have cc: "concat (map concat xv) = concat (concat xv)" by (simp add: concat_concat_map)
  show ?thesis
  proof (cases "concat xv")
    case Nil
    with c cc show ?thesis by (simp add: np_flat_def)
  next
    case (Cons v0 vs)
    from u [OF Cons] have "list_all (\<lambda>v. length v = length v0) (v0 # vs)"
      by (simp add: Cons)
    with c cc Cons show ?thesis
      by (simp add: np_flat_def)
  qed
qed

lemma window_body_unfold:
  "comprehend (comprehend (lookup_embedding emb))
     (slice2 data 0 bs (i * ns) ((i + 1) * ns)) = Inr xf \<Longrightarrow>
   xf = x0 # xr \<Longrightarrow> \<not> length x0 < ns \<Longrightarrow> np_flat xf = Inr flat \<Longrightarrow>
   np_reshape3 flat bs ns es = Inr xa \<Longrightarrow>
   np_reshape2 (concat (slice2 data 0 bs (i * ns + 1) ((i + 1) * ns + 1))) bs ns = Inr ya \<Longrightarrow>
   window_body emb ns bs es data i = Yield (xa, ya)"
  by (simp add: window_body_def)

lemma window_body_fits:
  assumes ld: "length data = bs" and rows: "\<forall>row \<in> set data. length row = bl"
    and bs: "0 < bs" and ns: "0 < ns" and fit: "i * ns + ns + 1 \<le> bl"
    and emb: "\<forall>row \<in> set data. \<forall>tok \<in> set row.
       lookup_embedding emb tok = Inr (Vec (embedded_vec emb tok)) \<and>
       length (embedded_vec emb tok) = es"
  shows "window_body emb ns bs es data i =
    Yield (map (map (embedded_vec emb)) (slice2 data 0 bs (i * ns) ((i + 1) * ns)),
           slice2 data 0 bs (i * ns + 1) ((i + 1) * ns + 1))"
proof -
  let ?xids = "slice2 data 0 bs (i * ns) ((i + 1) * ns)"
  let ?yw = "slice2 data 0 bs (i * ns + 1) ((i + 1) * ns + 1)"
  let ?xv = "map (map (embedded_vec emb)) ?xids"
  have xids: "?xids = map (\<lambda>row. slice row (i * ns) ((i + 1) * ns)) data"
    by (simp add: slice2_def slice_all ld)
  have yw: "?yw = map (\<lambda>row. slice row (i * ns + 1) ((i + 1) * ns + 1)) data"
    by (simp add: slice2_def slice_all ld)
  have toks: "lookup_embedding emb tok = Inr (Vec (embedded_vec emb tok)) \<and>
       length (embedded_vec emb tok) = es" if "r \<in> set ?xids" "tok \<in> set r" for r tok
  proof -
    from that(1) have "r \<in> set (map (\<lambda>row. slice row (i * ns) ((i + 1) * ns)) data)"
      unfolding xids .
    then obtain row where "row \<in> set data" "r = slice row (i * ns) ((i + 1) * ns)"
      by auto
    with that(2) have "tok \<in> set row" "row \<in> set data"
      by (auto simp: slice_def dest: in_set_takeD in_set_dropD)
    with emb show ?thesis by blast
  qed
  have "comprehend (lookup_embedding emb) r = Inr (map (Vec \<circ> embedded_vec emb) r)"
    if "r \<in> set ?xids" for r
    using toks [OF that] by (intro comprehend_all) simp
  then have "comprehend (comprehend (lookup_embedding emb)) ?xids =
      Inr (map (map (Vec \<circ> embedded_vec emb)) ?xids)"
    by (intro comprehend_all) simp
  then have cx: "comprehend (comprehend (lookup_embedding emb)) ?xids = Inr (map (map Vec) ?xv)"
    by (simp add: comp_def)
  have lxv: "length ?xv = bs" unfolding xids by (simp add: ld)
  have wx: "\<forall>r \<in> set ?xv. length r = ns"
    unfolding xids using rows fit by (auto simp: length_slice)
  have wv: "\<forall>r \<in> set ?xv. \<forall>v \<in> set r. length v = es"
    using toks by auto
  from lxv bs obtain x0 xr where x0: "map (map Vec) ?xv = x0 # xr"
    by (cases "map (map Vec) ?xv") auto
  then have "x0 \<in> set (map (map Vec) ?xv)" by simp
  with wx have lx0: "length x0 = ns" by auto
  have lyw: "length ?yw = bs" unfolding yw by (simp add: ld)
  have wy: "\<forall>r \<in> set ?yw. length r = ns"
    unfolding yw using rows fit by (auto simp: length_slice)
  from lx0 have wide: "\<not> length x0 < ns" by simp
  show ?thesis
    by (rule window_body_unfold [OF cx x0 wide np_flat_vectors [OF wv]
          np_reshape3_fits [OF lxv wx wv] np_reshape2_fits [OF lyw wy]])
qed

section \<open>Files with fewer tokens than rows\<close>

lemma window_body_empty_rows:
  assumes "length data = bs" and "\<forall>row \<in> set data. row = []" and "0 < bs" and "0 < ns"
  shows "window_body emb ns bs es data i = Break"
proof -
  let ?xids = "slice2 data 0 bs (i * ns) ((i + 1) * ns)"
  have rows: "\<forall>r \<in> set ?xids. r = []"
  proof
    fix r assume "r \<in> set ?xids"
    then obtain row where "row \<in> set (slice data 0 bs)" and r: "r = slice row (i * ns) ((i + 1) * ns)"
      unfolding slice2_def by auto
    then have "row \<in> set data" by (auto simp: slice_def dest: in_set_takeD)
    with assms(2) have "row = []" by blast
    with r show "r = []" by (simp add: slice_def)
  qed
  have "\<forall>r \<in> set ?xids. comprehend (lookup_embedding emb) r = Inr ((\<lambda>r. []) r)"
  proof
    fix r assume "r \<in> set ?xids"
    with rows have "r = []" by blast
    then show "comprehend (lookup_embedding emb) r = Inr ((\<lambda>r. []) r)" by simp
  qed
  then have cx: "comprehend (comprehend (lookup_embedding emb)) ?xids = Inr (map (\<lambda>r. []) ?xids)"
    by (rule comprehend_all)
  have "length ?xids = bs" by (simp add: slice2_def slice_all assms(1))
  with assms(3) obtain r rs where "?xids = r # rs" by (cases ?xids) auto
  then have "map (\<lambda>r. [] :: entry_field list) ?xids = [] # map (\<lambda>r. []) rs" by simp
  with cx assms(4) show ?thesis
    unfolding window_body_def by (simp add: Let_def)
qed

lemma small_file_no_batches:
  assumes "length raw < bs" and "0 < ns"
  shows "file_batches emb ns bs es raw = ([], None)"
proof -
  from assms(1) have bs: "0 < bs" and bl: "length raw div bs = 0" by simp_all
  let ?data = "chunks (slice raw 0 (bs * (length raw div bs))) bs (length raw div bs)"
  note data = reshape_file [OF bs, of raw]
  note rs = reshaped_rows [OF data]
  from rs(2) bl have empty: "\<forall>row \<in> set ?data. row = []" by simp
  have "for_loop emb ns bs es ?data js = ([], None)" for js
    by (cases js) (simp_all add: window_body_empty_rows [OF rs(1) empty bs assms(2)])
  with bs assms(2) data show ?thesis
    by (simp add: file_batches_def Let_def)
qed

section \<open>The windows of one file\<close>

text \<open>
  C1. The claim is that the windows of one file start at the columns
  \<open>0, num_steps, 2 * num_steps, ...\<close>, so that successive windows are adjacent. The loop
  variable \<open>i\<close> already advances by \<open>num_steps\<close> and the slice multiplies it by \<open>num_steps\<close>
  once more: for twelve tokens in one row and \<open>num_steps = 2\<close> the windows emitted start at
  the columns 0, 4 and 8, and the tokens 3, 4, 7 and 8 are in no window.
\<close>

theorem windows_skip_columns:
  "file_batches id_embeddings 2 1 1 [1, 2, 3, 4, 5, 6, 7, 8, 9, 10, 11, 12] =
     ([([[[1], [2]]], [[2, 3]]), ([[[5], [6]]], [[6, 7]]), ([[[9], [10]]], [[10, 11]])], None)"
  by code_simp

text \<open>
  C2. The scenario of ten tokens with \<open>batch_size = 2\<close> and \<open>num_steps = 2\<close>: the array is
  reshaped to \<open>[[1,2,3,4,5],[6,7,8,9,10]]\<close> and the first batch is the one claimed, but the
  second pass through the loop (\<open>i = 2\<close>) slices the columns \<open>4:6\<close>, finds a window of
  width 1 and breaks: the file gives one batch, not two.
\<close>

theorem ten_tokens_one_batch:
  "np_reshape2 (slice [1, 2, 3, 4, 5, 6, 7, 8, 9, 10] 0 (2 * (10 div 2))) 2 (10 div 2) =
     Inr [[1, 2, 3, 4, 5], [6, 7, 8, 9, 10 :: int]] \<and>
   file_batches id_embeddings 2 2 1 [1, 2, 3, 4, 5, 6, 7, 8, 9, 10] =
     ([([[[1], [2]], [[6], [7]]], [[2, 3], [7, 8]])], None)"
  by code_simp

text \<open>
  C3. The claim is that a tail shorter than \<open>num_steps\<close> is dropped silently, also when the
  window of \<open>x\<close> is full and the window of \<open>y\<close> runs one column past the end. The loop
  tests the width of \<open>x\<close> only: for four tokens with \<open>batch_size = 2\<close> and \<open>num_steps = 2\<close>
  the reshape of \<open>y\<close> raises \<^verbatim>\<open>ValueError\<close>, and the draw from a generator whose first
  file this is raises it and ends the generator instead of going on to the second file.
\<close>

theorem short_target_window_raises:
  "file_batches id_embeddings 2 2 1 [1, 2, 3, 4] = ([], Some ValueError) \<and>
   gen_next (generate_arrays_from_list ''Train'' [[1, 2, 3, 4], [1, 2, 3, 4, 5, 6, 7, 8, 9, 10]]
       id_embeddings 2 2 1 126930) =
     Some (Inl ValueError,
       (generate_arrays_from_list ''Train'' [[1, 2, 3, 4], [1, 2, 3, 4, 5, 6, 7, 8, 9, 10]]
          id_embeddings 2 2 1 126930)\<lparr>g_pc := Dead\<rparr>)"
proof -
  have fb: "file_batches id_embeddings 2 2 1 [1, 2, 3, 4] = ([], Some ValueError)"
    by code_simp
  then show ?thesis
    by (simp add: gen_next.simps generate_arrays_from_list_def)
qed

text \<open>
  C4. In every batch that a file emits, \<open>x[b, t]\<close> is the embedding of the token in row
  \<open>b\<close> at some column of the reshaped array and \<open>y[b, t]\<close> is the token in the same row one
  column further, which is the next token of the file. The batch is the \<open>k\<close>-th of the file
  (counted from 0) and the column is \<open>k * num_steps * num_steps + t\<close>.
\<close>

theorem targets_follow_inputs:
  assumes "file_batches emb ns bs es raw = (bl, r)"
    and "np_reshape2 (slice raw 0 (bs * (length raw div bs))) bs (length raw div bs) = Inr data"
    and "k < length bl" and "b < bs" and "t < ns"
  shows "k * ns * ns + t + 1 < length raw div bs \<and>
         lookup_embedding emb (data ! b ! (k * ns * ns + t)) = Inr (Vec (fst (bl ! k) ! b ! t)) \<and>
         snd (bl ! k) ! b ! t = data ! b ! (k * ns * ns + t + 1) \<and>
         data ! b ! (k * ns * ns + t) = raw ! (b * (length raw div bs) + k * ns * ns + t) \<and>
         snd (bl ! k) ! b ! t = raw ! (b * (length raw div bs) + k * ns * ns + t + 1)"
proof -
  note cells = file_batches_cells [OF assms]
  then have c1: "k * ns * ns + t + 1 < length raw div bs" by simp
  then have c0: "k * ns * ns + t < length raw div bs" by simp
  note rs = reshaped_rows(3) [OF assms(2,4)]
  from rs [OF c0] rs [OF c1] cells show ?thesis by (simp add: add.assoc)
qed

text \<open>The theorem at the first batch of the ten-token file, row 1 and step 1.\<close>

theorem targets_follow_inputs_witness:
  "file_batches id_embeddings 2 2 1 [1, 2, 3, 4, 5, 6, 7, 8, 9, 10] =
     ([([[[1], [2]], [[6], [7]]], [[2, 3], [7, 8]])], None) \<and>
   np_reshape2 (slice [1, 2, 3, 4, 5, 6, 7, 8, 9, 10] 0 (2 * (length [1, 2, 3, 4, 5, 6, 7, 8, 9, 10 :: int] div 2))) 2
       (length [1, 2, 3, 4, 5, 6, 7, 8, 9, 10 :: int] div 2) =
     Inr [[1, 2, 3, 4, 5], [6, 7, 8, 9, 10 :: int]] \<and>
   lookup_embedding id_embeddings 7 = Inr (Vec [7]) \<and>
   snd (([[[1], [2]], [[6], [7]]], [[2, 3], [7, 8 :: int]]) :: batch) ! 1 ! 1 = 8 \<and>
   [1, 2, 3, 4, 5, 6, 7, 8, 9, 10 :: int] ! 6 = 7 \<and>
   [1, 2, 3, 4, 5, 6, 7, 8, 9, 10 :: int] ! 7 = 8"
proof -
  have h1: "file_batches id_embeddings 2 2 1 [1, 2, 3, 4, 5, 6, 7, 8, 9, 10] =
     ([([[[1], [2]], [[6], [7]]], [[2, 3], [7, 8]])], None)"
    by code_simp
  have h2: "np_reshape2 (slice [1, 2, 3, 4, 5, 6, 7, 8, 9, 10] 0
         (2 * (length [1, 2, 3, 4, 5, 6, 7, 8, 9, 10 :: int] div 2))) 2
       (length [1, 2, 3, 4, 5, 6, 7, 8, 9, 10 :: int] div 2) =
     Inr [[1, 2, 3, 4, 5], [6, 7, 8, 9, 10 :: int]]"
    by code_simp
  have h3: "(0::nat) < length [([[[1], [2]], [[6], [7]]], [[2, 3], [7, 8]]) :: batch]" by simp
  from targets_follow_inputs [OF h1 h2 h3, of 1 1] h1 h2 show ?thesis
    by simp
qed

text \<open>
  C5. The claim is that a file too small to fill a window gives no batch and no failure,
  among others the file of three tokens with \<open>batch_size = 2\<close> for every
  \<open>num_steps \<ge> 1\<close>. A file with fewer tokens than \<open>batch_size\<close> does behave so
  (\<open>small_file_no_batches\<close>). For three tokens and \<open>num_steps = 1\<close> the loop is entered,
  since its bound is \<open>n_words - num_steps\<close>; the window of \<open>x\<close> is full (one column), the
  window of \<open>y\<close> is empty, and the reshape of \<open>y\<close> raises \<^verbatim>\<open>ValueError\<close>.
\<close>

theorem three_tokens_one_step_raises:
  "file_batches id_embeddings 1 2 1 [1, 2, 3] = ([], Some ValueError)"
  by code_simp

section \<open>The embedding lookup\<close>

text \<open>
  C8, as stated: the vector embedded for a token id is the last element of the id's entry,
  whatever the length of the entry. The lookup is \<^verbatim>\<open>embeddings[int(elem)][2]\<close>: with entries
  of four fields whose last two are the vectors \<open>[1]\<close> and \<open>[2]\<close>, the emitted \<open>x\<close> holds
  \<open>[1]\<close>, the field at index 2, and not the last one.
\<close>

theorem last_field_not_used:
  "four_field_embeddings 7 = Some [Meta ''id'', Meta ''word'', Vec [1], Vec [2]] \<and>
   last [Meta ''id'', Meta ''word'', Vec [1], Vec [2]] = Vec [2] \<and>
   file_batches four_field_embeddings 1 1 1 [7, 7] = ([([[[1]]], [[7]])], None)"
proof -
  have "file_batches four_field_embeddings 1 1 1 [7, 7] = ([([[[1]]], [[7]])], None)"
    by code_simp
  then show ?thesis by (simp add: four_field_embeddings_def)
qed

text \<open>
  C8, amended: for every token id in every emitted \<open>x\<close>, the embedded vector is the element
  at index 2 of the id's entry, which has at least three elements; it is the last element
  when the entry has exactly three.
\<close>

theorem embedded_vector_is_third_field:
  assumes "file_batches emb ns bs es raw = (bl, r)"
    and "np_reshape2 (slice raw 0 (bs * (length raw div bs))) bs (length raw div bs) = Inr data"
    and "k < length bl" and "b < bs" and "t < ns"
    and "emb (data ! b ! (k * ns * ns + t)) = Some e"
  shows "2 < length e \<and> e ! 2 = Vec (fst (bl ! k) ! b ! t) \<and>
         (length e = 3 \<longrightarrow> last e = Vec (fst (bl ! k) ! b ! t))"
proof -
  from file_batches_cells [OF assms(1-5)] have
    "lookup_embedding emb (data ! b ! (k * ns * ns + t)) = Inr (Vec (fst (bl ! k) ! b ! t))"
    by simp
  with assms(6) have l: "2 < length e" and v: "e ! 2 = Vec (fst (bl ! k) ! b ! t)"
    by (auto simp: lookup_embedding_def split: if_splits)
  from l have "e \<noteq> []" by auto
  then have "length e = 3 \<Longrightarrow> last e = e ! 2" by (simp add: last_conv_nth)
  with l v show ?thesis by simp
qed

text \<open>The theorem at the ten-token file, where the entry of token 7 has three fields.\<close>

theorem embedded_vector_is_third_field_witness:
  "file_batches id_embeddings 2 2 1 [1, 2, 3, 4, 5, 6, 7, 8, 9, 10] =
     ([([[[1], [2]], [[6], [7]]], [[2, 3], [7, 8]])], None) \<and>
   np_reshape2 (slice [1, 2, 3, 4, 5, 6, 7, 8, 9, 10] 0
         (2 * (length [1, 2, 3, 4, 5, 6, 7, 8, 9, 10 :: int] div 2))) 2
       (length [1, 2, 3, 4, 5, 6, 7, 8, 9, 10 :: int] div 2) =
     Inr [[1, 2, 3, 4, 5], [6, 7, 8, 9, 10 :: int]] \<and>
   id_embeddings 7 = Some [Meta ''id'', Meta ''word'', Vec [7]] \<and>
   length [Meta ''id'', Meta ''word'', Vec [7]] = 3 \<and>
   [Meta ''id'', Meta ''word'', Vec [7]] ! 2 = Vec [7] \<and>
   last [Meta ''id'', Meta ''word'', Vec [7]] = Vec [7]"
proof -
  have h1: "file_batches id_embeddings 2 2 1 [1, 2, 3, 4, 5, 6, 7, 8, 9, 10] =
     ([([[[1], [2]], [[6], [7]]], [[2, 3], [7, 8]])], None)"
    by code_simp
  have h2: "np_reshape2 (slice [1, 2, 3, 4, 5, 6, 7, 8, 9, 10] 0
         (2 * (length [1, 2, 3, 4, 5, 6, 7, 8, 9, 10 :: int] div 2))) 2
       (length [1, 2, 3, 4, 5, 6, 7, 8, 9, 10 :: int] div 2) =
     Inr [[1, 2, 3, 4, 5], [6, 7, 8, 9, 10 :: int]]"
    by code_simp
  have h3: "(0::nat) < length [([[[1], [2]], [[6], [7]]], [[2, 3], [7, 8]]) :: batch]" by simp
  have h4: "(1::nat) < 2" by simp
  have h5: "id_embeddings ([[1, 2, 3, 4, 5], [6, 7, 8, 9, 10]] ! 1 ! (0 * 2 * 2 + 1)) =
      Some [Meta ''id'', Meta ''word'', Vec [7]]"
    by (simp add: id_embeddings_def)
  from embedded_vector_is_third_field [OF h1 h2 h3 h4 h4 h5] h1 h2 show ?thesis
    by (simp add: id_embeddings_def)
qed

section \<open>The recurrent state across the steps of an epoch\<close>

lemma epoch_loop_chained:
  "epoch_loop E c ev vb n (sess, gen, state, costs, iters) = Some res \<Longrightarrow>
   \<exists>new. runs (loop_session res) = runs sess @ new \<and> chained state new"
proof (induction n arbitrary: sess gen state costs iters)
  case 0
  then show ?case by (auto simp: loop_session_def)
next
  case (Suc n)
  from Suc.prems obtain r gen' where g: "gen_next gen = Some (r, gen')"
    by (cases "gen_next gen") auto
  show ?case
  proof (cases r)
    case (Inl e)
    with Suc.prems g show ?thesis by (auto simp: loop_session_def)
  next
    case (Inr b)
    obtain cost final w' where ex: "execute E ev (variables sess) state b = ((cost, final), w')"
      by (metis surj_pair)
    let ?sess' = "sess\<lparr>variables := w', runs := runs sess @ [(state, b, cost, final)]\<rparr>"
    show ?thesis
    proof (cases "vb \<and> epoch_size c div 10 = 0")
      case True
      with Suc.prems g Inr ex have "res = Inl (ZeroDivisionError, ?sess', gen')"
        by (auto simp: Let_def)
      then have "runs (loop_session res) = runs sess @ [(state, b, cost, final)]"
        by (simp add: loop_session_def)
      moreover have "chained state [(state, b, cost, final)]" by (simp add: fed_state_def)
      ultimately show ?thesis by blast
    next
      case False
      with Suc.prems g Inr ex have
        "epoch_loop E c ev vb n (?sess', gen', final, costs + cost, iters + int (num_steps c)) =
           Some res"
        by (auto simp: Let_def)
      from Suc.IH [OF this] obtain new where
        "runs (loop_session res) = runs ?sess' @ new" and "chained final new" by blast
      then have "runs (loop_session res) = runs sess @ ((state, b, cost, final) # new)"
        and "chained state ((state, b, cost, final) # new)"
        by (simp_all add: fed_state_def fetched_state_def)
      then show ?thesis by blast
    qed
  qed
qed

lemma run_epoch_chained:
  assumes "run_epoch E h sess gen model ev vb = Some res"
  shows "\<exists>new. runs (session_after res) = runs sess @ new \<and> chained (zero_state E) new"
proof -
  let ?c = "h ! m_config model"
  from assms obtain lres where
    l: "epoch_loop E ?c ev vb (nat (epoch_size ?c)) (sess, gen, zero_state E, 0, 0) = Some lres"
    by (auto simp: run_epoch_def Let_def split: option.splits)
  with assms have "session_after res = loop_session lres"
    by (auto simp: run_epoch_def Let_def session_after_def loop_session_def
        split: sum.splits if_splits)
  with epoch_loop_chained [OF l] show ?thesis by simp
qed

lemma chained_nth:
  "chained s new \<Longrightarrow> Suc k < length new \<Longrightarrow> fed_state (new ! Suc k) = fetched_state (new ! k)"
proof (induction new arbitrary: s k)
  case Nil
  then show ?case by simp
next
  case (Cons r rs)
  show ?case
  proof (cases k)
    case 0
    with Cons.prems show ?thesis by (cases rs) auto
  next
    case (Suc k')
    with Cons.prems have "chained (fetched_state r) rs" and "Suc k' < length rs" by simp_all
    from Cons.IH [OF this] Suc show ?thesis by simp
  qed
qed

lemma chained_first: "chained s new \<Longrightarrow> new \<noteq> [] \<Longrightarrow> fed_state (new ! 0) = s"
  by (cases new) auto

lemma three_token_batches:
  "file_batches id_embeddings (Suc 0) (Suc 0) (Suc 0) [1, 2, 3] =
     ([([[[1]]], [[2]]), ([[[2]]], [[3]])], None)"
  by code_simp

lemmas run_defs = run_epoch_def three_token_generator_def generate_arrays_from_list_def
  tiny_config_def TestConfig_def counting_engine_def WPModel_def Let_def gen_next.simps
  three_token_batches

text \<open>
  C6. Within one call of \<open>run_epoch\<close> the state fed to a run is the final state fetched
  by the run before it: \<open>new\<close> is the sequence of runs the call adds to the session, whether
  the call returns or raises.
\<close>

theorem state_carried_between_batches:
  assumes "run_epoch E h sess gen model ev vb = Some res"
    and "runs (session_after res) = runs sess @ new"
    and "Suc k < length new"
  shows "fed_state (new ! Suc k) = fetched_state (new ! k)"
proof -
  from run_epoch_chained [OF assms(1)] assms(2) have "chained (zero_state E) new" by auto
  from chained_nth [OF this assms(3)] show ?thesis .
qed

text \<open>
  The theorem at an epoch of two steps over the three-token file: the second run is fed
  the state 1 that the first run returned.
\<close>

theorem state_carried_between_batches_witness:
  "run_epoch counting_engine [tiny_config\<lparr>epoch_size := 2\<rparr>] \<lparr>variables = (), runs = []\<rparr>
     three_token_generator (WPModel True 0 [tiny_config\<lparr>epoch_size := 2\<rparr>]) False False =
   Some (Inr ((2, 2),
     \<lparr>variables = (), runs = [(0, ([[[1]]], [[2]]), 1, 1), (1, ([[[2]]], [[3]]), 1, 2)]\<rparr>,
     three_token_generator\<lparr>g_pc := InFile 0 [1, 2, 3] 2\<rparr>)) \<and>
   fed_state ([(0 :: nat, ([[[1]]], [[2]]) :: batch, 1 :: real, 1 :: nat),
               (1, ([[[2]]], [[3]]), 1, 2)] ! Suc 0) = 1 \<and>
   fetched_state ([(0 :: nat, ([[[1]]], [[2]]) :: batch, 1 :: real, 1 :: nat),
               (1, ([[[2]]], [[3]]), 1, 2)] ! 0) = 1"
proof -
  let ?new = "[(0 :: nat, ([[[1]]], [[2]]) :: batch, 1 :: real, 1 :: nat),
               (1, ([[[2]]], [[3]]), 1, 2)]"
  let ?res = "Inr ((2, 2), \<lparr>variables = (), runs = ?new\<rparr>,
     three_token_generator\<lparr>g_pc := InFile 0 [1, 2, 3] 2\<rparr>)"
  have h1: "run_epoch counting_engine [tiny_config\<lparr>epoch_size := 2\<rparr>]
     \<lparr>variables = (), runs = []\<rparr> three_token_generator
     (WPModel True 0 [tiny_config\<lparr>epoch_size := 2\<rparr>]) False False = Some ?res"
    by (simp add: run_defs numeral_2_eq_2)
  have h2: "runs (session_after ?res) = runs \<lparr>variables = (), runs = []\<rparr> @ ?new"
    by (simp add: session_after_def)
  have h3: "Suc 0 < length ?new" by simp
  from state_carried_between_batches [OF h1 h2 h3] h1 show ?thesis
    by (simp add: fed_state_def fetched_state_def)
qed

text \<open>
  C7, as stated: the state is reset to zero at the start of a pass over a file and not at
  the start of every epoch, so that an epoch which begins in the middle of a file does not
  reset it. With epochs of one step over the three-token file, the first epoch leaves the
  generator inside the file after its first batch and fetches the final state 1; the
  second epoch begins there and feeds the zero state.
\<close>

theorem epoch_mid_file_resets_state:
  "run_epoch counting_engine [tiny_config] \<lparr>variables = (), runs = []\<rparr>
     three_token_generator (WPModel True 0 [tiny_config]) False False =
   Some (Inr ((1, 1), \<lparr>variables = (), runs = [(0, ([[[1]]], [[2]]), 1, 1)]\<rparr>,
     three_token_generator\<lparr>g_pc := InFile 0 [1, 2, 3] 1\<rparr>)) \<and>
   run_epoch counting_engine [tiny_config]
     \<lparr>variables = (), runs = [(0, ([[[1]]], [[2]]), 1, 1)]\<rparr>
     (three_token_generator\<lparr>g_pc := InFile 0 [1, 2, 3] 1\<rparr>)
     (WPModel True 0 [tiny_config]) False False =
   Some (Inr ((1, 1),
     \<lparr>variables = (), runs = [(0, ([[[1]]], [[2]]), 1, 1), (0, ([[[2]]], [[3]]), 1, 1)]\<rparr>,
     three_token_generator\<lparr>g_pc := InFile 0 [1, 2, 3] 2\<rparr>)) \<and>
   fetched_state (0 :: nat, ([[[1]]], [[2]]) :: batch, 1 :: real, 1 :: nat) = 1 \<and>
   fed_state (0 :: nat, ([[[2]]], [[3]]) :: batch, 1 :: real, 1 :: nat) = zero_state counting_engine \<and>
   zero_state counting_engine = 0"
  by (simp add: run_defs fed_state_def fetched_state_def)

text \<open>
  C7, amended: the recurrent state is reset to zero (the model's \<^verbatim>\<open>initial_state\<close>) at the
  start of every call of \<open>run_epoch\<close>, wherever the generator stands in its cycle through
  the files: the first run of every epoch is fed the zero state.
\<close>

theorem state_reset_at_every_epoch:
  assumes "run_epoch E h sess gen model ev vb = Some res"
    and "runs (session_after res) = runs sess @ new"
    and "new \<noteq> []"
  shows "fed_state (new ! 0) = zero_state E"
proof -
  from run_epoch_chained [OF assms(1)] assms(2) have "chained (zero_state E) new" by auto
  from chained_first [OF this assms(3)] show ?thesis .
qed

text \<open>The theorem at an epoch that begins inside the three-token file.\<close>

theorem state_reset_at_every_epoch_witness:
  "run_epoch counting_engine [tiny_config]
     \<lparr>variables = (), runs = [(0, ([[[1]]], [[2]]), 1, 1)]\<rparr>
     (three_token_generator\<lparr>g_pc := InFile 0 [1, 2, 3] 1\<rparr>)
     (WPModel True 0 [tiny_config]) False False =
   Some (Inr ((1, 1),
     \<lparr>variables = (), runs = [(0, ([[[1]]], [[2]]), 1, 1), (0, ([[[2]]], [[3]]), 1, 1)]\<rparr>,
     three_token_generator\<lparr>g_pc := InFile 0 [1, 2, 3] 2\<rparr>)) \<and>
   fed_state ([(0 :: nat, ([[[2]]], [[3]]) :: batch, 1 :: real, 1 :: nat)] ! 0) =
     zero_state counting_engine"
proof -
  let ?old = "[(0 :: nat, ([[[1]]], [[2]]) :: batch, 1 :: real, 1 :: nat)]"
  let ?new = "[(0 :: nat, ([[[2]]], [[3]]) :: batch, 1 :: real, 1 :: nat)]"
  let ?res = "Inr ((1, 1), \<lparr>variables = (), runs = ?old @ ?new\<rparr>,
     three_token_generator\<lparr>g_pc := InFile 0 [1, 2, 3] 2\<rparr>)"
  have h1: "run_epoch counting_engine [tiny_config] \<lparr>variables = (), runs = ?old\<rparr>
     (three_token_generator\<lparr>g_pc := InFile 0 [1, 2, 3] 1\<rparr>)
     (WPModel True 0 [tiny_config]) False False = Some ?res"
    by (simp add: run_defs)
  have h2: "runs (session_after ?res) = runs \<lparr>variables = (), runs = ?old\<rparr> @ ?new"
    by (simp add: session_after_def)
  have h3: "?new \<noteq> []" by simp
  from state_reset_at_every_epoch [OF h1 h2 h3] h1 show ?thesis
    by simp
qed

section \<open>The configuration phase of main\<close>

lemma get_epoch_size_fields:
  "batch_size c' = batch_size c \<Longrightarrow> num_steps c' = num_steps c \<Longrightarrow>
   get_epoch_size ws c' = get_epoch_size ws c"
  by (simp add: get_epoch_size_def)

lemma main_config_phase_Inr:
  assumes "main_config_phase dp model emb tr va te = Inr S"
  shows "\<exists>preset n_train n_valid n_test.
     get_config model = Inr preset \<and>
     get_epoch_size (map wc_words tr) preset = Inr n_train \<and>
     get_epoch_size (map wc_words va) preset = Inr n_valid \<and>
     get_epoch_size (map wc_words te) (preset\<lparr>batch_size := 1, num_steps := 1\<rparr>) = Inr n_test \<and>
     s_heap S = [preset\<lparr>vocab_size := 126930, epoch_size := n_valid\<rparr>,
                 preset\<lparr>batch_size := 1, num_steps := 1, vocab_size := 126930,
                        epoch_size := n_test\<rparr>] \<and>
     s_config S = 0 \<and> s_valid_config S = 0 \<and> s_eval_config S = 1 \<and>
     gen_train S = generate_arrays_from_list ''Train'' (map tokens tr) emb (num_steps preset)
        (batch_size preset) (embedding_size preset) 126930 \<and>
     gen_valid S = generate_arrays_from_list ''Validation'' (map tokens va) emb (num_steps preset)
        (batch_size preset) (embedding_size preset) 126930 \<and>
     gen_test S = generate_arrays_from_list ''Test'' (map tokens te) emb (num_steps preset)
        (batch_size preset) (embedding_size preset) 126930 \<and>
     s_m S = WPModel True 0 (s_heap S) \<and> s_mvalid S = WPModel False 0 (s_heap S) \<and>
     s_mtest S = WPModel False 1 (s_heap S)"
proof -
  from assms obtain preset where p: "get_config model = Inr preset"
    by (auto simp: main_config_phase_def split: if_splits sum.splits)
  have a: "get_epoch_size ws (preset\<lparr>vocab_size := v\<rparr>) = get_epoch_size ws preset" for ws v
    by (simp add: get_epoch_size_def)
  have b: "get_epoch_size ws (preset\<lparr>vocab_size := v, epoch_size := n\<rparr>) = get_epoch_size ws preset"
    for ws v n
    by (simp add: get_epoch_size_def)
  have c: "get_epoch_size ws (preset\<lparr>batch_size := x, num_steps := y, vocab_size := v\<rparr>) =
           get_epoch_size ws (preset\<lparr>batch_size := x, num_steps := y\<rparr>)" for ws v x y
    by (simp add: get_epoch_size_def)
  from assms p show ?thesis
    unfolding main_config_phase_def alloc_def Let_def
    by (auto simp: a b c split: if_splits sum.splits)
qed

text \<open>
  C9. \<^verbatim>\<open>valid_config\<close> is the same object as \<^verbatim>\<open>config\<close>, which is also the configuration of
  the training model, so after the configuration phase the training model's \<open>epoch_size\<close>
  is the epoch size of the validation list.
\<close>

theorem validation_epoch_size_overwrites_training:
  assumes "main_config_phase dp model emb tr va te = Inr S"
    and "get_config model = Inr preset"
  shows "s_valid_config S = s_config S \<and> m_config (s_m S) = s_config S \<and>
         get_epoch_size (map wc_words va) preset =
           Inr (epoch_size (s_heap S ! m_config (s_m S)))"
  using main_config_phase_Inr [OF assms(1)] assms(2)
  by (auto simp: WPModel_def)

text \<open>
  The theorem for the preset \<open>test\<close> with 1000 training words and 100 validation words:
  the training list gives 49, the validation list 4, and the training model is left with 4.
\<close>

theorem validation_epoch_size_overwrites_training_witness:
  "main_config_phase (Some ''files.txt'') ''test'' id_embeddings
     [\<lparr>wc_words = 1000, tokens = []\<rparr>] [\<lparr>wc_words = 100, tokens = []\<rparr>] [] =
   Inr \<lparr>s_heap = [TestConfig\<lparr>vocab_size := 126930, epoch_size := 4\<rparr>,
                  TestConfig\<lparr>batch_size := 1, num_steps := 1, vocab_size := 126930,
                             epoch_size := - 1\<rparr>],
        s_config = 0, s_valid_config = 0, s_eval_config = 1,
        gen_train = generate_arrays_from_list ''Train'' [[]] id_embeddings 2 10 200 126930,
        gen_valid = generate_arrays_from_list ''Validation'' [[]] id_embeddings 2 10 200 126930,
        gen_test = generate_arrays_from_list ''Test'' [] id_embeddings 2 10 200 126930,
        s_m = \<lparr>m_config = 0, m_is_training = True, inputs_shape = (10, 2, 200),
                targets_shape = (10, 2)\<rparr>,
        s_mvalid = \<lparr>m_config = 0, m_is_training = False, inputs_shape = (10, 2, 200),
                targets_shape = (10, 2)\<rparr>,
        s_mtest = \<lparr>m_config = 1, m_is_training = False, inputs_shape = (1, 1, 200),
                targets_shape = (1, 1)\<rparr>\<rparr> \<and>
   get_config ''test'' = Inr TestConfig \<and>
   get_epoch_size [1000] TestConfig = Inr 49 \<and>
   get_epoch_size [100] TestConfig = Inr 4"
proof -
  have h1: "main_config_phase (Some ''files.txt'') ''test'' id_embeddings
     [\<lparr>wc_words = 1000, tokens = []\<rparr>] [\<lparr>wc_words = 100, tokens = []\<rparr>] [] =
   Inr \<lparr>s_heap = [TestConfig\<lparr>vocab_size := 126930, epoch_size := 4\<rparr>,
                  TestConfig\<lparr>batch_size := 1, num_steps := 1, vocab_size := 126930,
                             epoch_size := - 1\<rparr>],
        s_config = 0, s_valid_config = 0, s_eval_config = 1,
        gen_train = generate_arrays_from_list ''Train'' [[]] id_embeddings 2 10 200 126930,
        gen_valid = generate_arrays_from_list ''Validation'' [[]] id_embeddings 2 10 200 126930,
        gen_test = generate_arrays_from_list ''Test'' [] id_embeddings 2 10 200 126930,
        s_m = \<lparr>m_config = 0, m_is_training = True, inputs_shape = (10, 2, 200),
                targets_shape = (10, 2)\<rparr>,
        s_mvalid = \<lparr>m_config = 0, m_is_training = False, inputs_shape = (10, 2, 200),
                targets_shape = (10, 2)\<rparr>,
        s_mtest = \<lparr>m_config = 1, m_is_training = False, inputs_shape = (1, 1, 200),
                targets_shape = (1, 1)\<rparr>\<rparr>"
    by (simp add: main_config_phase_def get_config_def alloc_def get_epoch_size_def
        TestConfig_def WPModel_def Let_def)
  have h2: "get_config ''test'' = Inr TestConfig" by (simp add: get_config_def)
  from validation_epoch_size_overwrites_training [OF h1 h2] h1 h2 show ?thesis
    by (simp add: get_epoch_size_def TestConfig_def)
qed

section \<open>The shapes of the test batches\<close>

lemma gen_next_batch_from_file:
  assumes "gen_next g = Some (Inr b, g')"
  shows "\<exists>raw. b \<in> set (fst (file_batches (g_embeddings g) (g_num_steps g) (g_batch_size g)
                          (g_embedding_size g) raw))"
proof -
  let ?P = "\<lambda>(g :: generator) (y :: (error + batch) \<times> generator).
     \<forall>b g'. y = (Inr b, g') \<longrightarrow>
     (\<exists>raw. b \<in> set (fst (file_batches (g_embeddings g) (g_num_steps g) (g_batch_size g)
                          (g_embedding_size g) raw)))"
  have "?P g y" if "gen_next g = Some y" for y
    using that
  proof (induct rule: gen_next.raw_induct [rotated, consumes 1])
    fix f :: "generator \<Rightarrow> ((error + batch) \<times> generator) option"
      and g :: generator and y :: "(error + batch) \<times> generator"
    assume IH: "\<And>x y. f x = Some y \<Longrightarrow> ?P x y"
    assume body: "(case g_pc g of
        AtFile k \<Rightarrow>
          if k < length (g_files g) then f (g\<lparr>g_pc := InFile k (g_files g ! k) 0\<rparr>)
          else f (g\<lparr>g_pc := AtFile 0\<rparr>)
      | InFile k raw_list j \<Rightarrow>
          (case file_batches (g_embeddings g) (g_num_steps g) (g_batch_size g)
                  (g_embedding_size g) raw_list of
             (bl, r) \<Rightarrow>
               if j < length bl then Some (Inr (bl ! j), g\<lparr>g_pc := InFile k raw_list (Suc j)\<rparr>)
               else
                 (case r of
                    None \<Rightarrow> f (g\<lparr>g_pc := AtFile (Suc k)\<rparr>)
                  | Some e \<Rightarrow> Some (Inl e, g\<lparr>g_pc := Dead\<rparr>)))
      | Dead \<Rightarrow> Some (Inl StopIteration, g)) = Some y"
    show "?P g y"
    proof (cases "g_pc g")
      case (AtFile k)
      show ?thesis
      proof (cases "k < length (g_files g)")
        case True
        with body AtFile have "f (g\<lparr>g_pc := InFile k (g_files g ! k) 0\<rparr>) = Some y" by simp
        from IH [OF this] show ?thesis by simp
      next
        case False
        with body AtFile have "f (g\<lparr>g_pc := AtFile 0\<rparr>) = Some y" by simp
        from IH [OF this] show ?thesis by simp
      qed
    next
      case (InFile k raw_list j)
      obtain bl r where fb: "file_batches (g_embeddings g) (g_num_steps g) (g_batch_size g)
          (g_embedding_size g) raw_list = (bl, r)" by (metis surj_pair)
      show ?thesis
      proof (cases "j < length bl")
        case True
        with body InFile fb have "y = (Inr (bl ! j), g\<lparr>g_pc := InFile k raw_list (Suc j)\<rparr>)"
          by simp
        moreover from True have "bl ! j \<in> set (fst (file_batches (g_embeddings g)
            (g_num_steps g) (g_batch_size g) (g_embedding_size g) raw_list))"
          by (simp add: fb)
        ultimately show ?thesis by blast
      next
        case False
        show ?thesis
        proof (cases r)
          case None
          with False body InFile fb have "f (g\<lparr>g_pc := AtFile (Suc k)\<rparr>) = Some y" by simp
          from IH [OF this] show ?thesis by simp
        next
          case (Some e)
          with False body InFile fb show ?thesis by auto
        qed
      qed
    next
      case Dead
      with body show ?thesis by auto
    qed
  qed
  from this [OF assms] show ?thesis by simp
qed

lemma file_batches_shape:
  assumes "file_batches emb ns bs es raw = (bl, r)" and "(xa, ya) \<in> set bl"
  shows "has_shape3 xa (bs, ns, es) \<and> has_shape2 ya (bs, ns)"
proof -
  from assms(2) obtain k where k: "k < length bl" and xy: "bl ! k = (xa, ya)"
    by (auto simp: in_set_conv_nth)
  from assms(1) k have bs: "0 < bs" by (auto simp: file_batches_def Let_def split: if_splits)
  note data = reshape_file [OF bs, of raw]
  from file_batches_nth [OF assms(1) data k] xy have
    ns: "0 < ns" and
    Y: "window_body emb ns bs es
          (chunks (slice raw 0 (bs * (length raw div bs))) bs (length raw div bs)) (k * ns) =
        Yield (xa, ya)"
    by simp_all
  note rs = reshaped_rows [OF data]
  from window_body_Yield [OF Y rs(1) rs(2) bs ns] have
    lx: "length xa = bs" and ly: "length ya = bs" and
    rows: "\<forall>b<bs. length (xa ! b) = ns \<and> length (ya ! b) = ns \<and>
            (\<forall>t<ns. length (xa ! b ! t) = es)"
    by simp_all
  from lx ly rows show ?thesis
    by (simp add: has_shape3_def has_shape2_def list_all_length)
qed

lemma shape3_differs:
  assumes "has_shape3 a (d0, d1, d2)" and "d0 \<noteq> 1 \<or> d1 \<noteq> 1"
  shows "\<not> has_shape3 a (1, 1, e2)"
proof
  assume o: "has_shape3 a (1, 1, e2)"
  then have "length a = 1" by (simp add: has_shape3_def)
  then obtain r where a: "a = [r]" by (cases a) auto
  with assms(1) o have "d0 = 1" "length r = d1" "length r = 1"
    by (simp_all add: has_shape3_def)
  with assms(2) show False by simp
qed

lemma shape2_differs:
  assumes "has_shape2 a (d0, d1)" and "d0 \<noteq> 1 \<or> d1 \<noteq> 1"
  shows "\<not> has_shape2 a (1, 1)"
proof
  assume o: "has_shape2 a (1, 1)"
  then have "length a = 1" by (simp add: has_shape2_def)
  then obtain r where a: "a = [r]" by (cases a) auto
  with assms(1) o have "d0 = 1" "length r = d1" "length r = 1"
    by (simp_all add: has_shape2_def)
  with assms(2) show False by simp
qed

lemma thirty_token_batches:
  "file_batches zero_embeddings 2 10 200 thirty_tokens =
     ([(replicate 10 [replicate 200 0, replicate 200 0], replicate 10 [5, 5])], None)"
proof -
  have d: "np_reshape2 (slice thirty_tokens 0 (10 * (length thirty_tokens div 10))) 10
      (length thirty_tokens div 10) = Inr (replicate 10 [5, 5, 5])"
    by code_simp
  have r: "py_range (int (length thirty_tokens) - int 2) 2 =
      [0, 2, 4, 6, 8, 10, 12, 14, 16, 18, 20, 22, 24, 26]"
    by code_simp
  have look: "lookup_embedding zero_embeddings tok = Inr (Vec (replicate 200 0))" for tok
    by (simp add: lookup_embedding_def zero_embeddings_def)
  then have ev: "embedded_vec zero_embeddings tok = replicate 200 0" for tok
    by (simp add: embedded_vec_def)
  have "window_body zero_embeddings 2 10 200 (replicate 10 [5, 5, 5]) 0 =
      Yield (map (map (embedded_vec zero_embeddings))
               (slice2 (replicate 10 [5, 5, 5]) 0 10 (0 * 2) ((0 + 1) * 2)),
             slice2 (replicate 10 [5, 5, 5]) 0 10 (0 * 2 + 1) ((0 + 1) * 2 + 1))"
    by (rule window_body_fits [where bl = 3]) (simp_all add: look ev)
  then have w0: "window_body zero_embeddings 2 10 200 (replicate 10 [5, 5, 5]) 0 =
      Yield (replicate 10 [replicate 200 0, replicate 200 0], replicate 10 [5, 5])"
    by (simp add: slice2_def slice_def ev)
  have w2: "window_body zero_embeddings 2 10 200 (replicate 10 [5, 5, 5]) 2 = Break"
    by code_simp
  show ?thesis
    unfolding file_batches_def Let_def d r
    by (simp add: w0 w2)
qed

text \<open>
  C10. The test generator is built with the \<open>batch_size\<close> and \<open>num_steps\<close> of \<^verbatim>\<open>config\<close>, the
  preset's, while the test model is built from \<^verbatim>\<open>eval_config\<close>, where both are 1. Every batch
  the test generator yields, from whatever point of its cycle (\<open>p\<close>), has \<open>x\<close> of shape
  \<open>(batch_size, num_steps, embedding_size)\<close> and \<open>y\<close> of shape \<open>(batch_size, num_steps)\<close>; the
  placeholders of the test model have the shapes \<open>(1, 1, embedding_size)\<close> and \<open>(1, 1)\<close>,
  which the batch does not have when the preset's \<open>batch_size\<close> or \<open>num_steps\<close> is not 1.
\<close>

theorem test_batches_have_training_shape:
  assumes "main_config_phase dp model emb tr va te = Inr S"
    and "get_config model = Inr preset"
    and "gen_next ((gen_test S)\<lparr>g_pc := p\<rparr>) = Some (Inr (xa, ya), g')"
  shows "g_batch_size (gen_test S) = batch_size preset \<and>
         g_num_steps (gen_test S) = num_steps preset \<and>
         has_shape3 xa (batch_size preset, num_steps preset, embedding_size preset) \<and>
         has_shape2 ya (batch_size preset, num_steps preset) \<and>
         inputs_shape (s_mtest S) = (1, 1, embedding_size preset) \<and>
         targets_shape (s_mtest S) = (1, 1) \<and>
         (batch_size preset \<noteq> 1 \<or> num_steps preset \<noteq> 1 \<longrightarrow>
            \<not> has_shape3 xa (inputs_shape (s_mtest S)) \<and>
            \<not> has_shape2 ya (targets_shape (s_mtest S)))"
proof -
  from main_config_phase_Inr [OF assms(1)] assms(2) have
    g: "gen_test S = generate_arrays_from_list ''Test'' (map tokens te) emb (num_steps preset)
          (batch_size preset) (embedding_size preset) 126930" and
    m: "inputs_shape (s_mtest S) = (1, 1, embedding_size preset)"
       "targets_shape (s_mtest S) = (1, 1)"
    by (auto simp: WPModel_def)
  from g have par: "g_batch_size (gen_test S) = batch_size preset"
    "g_num_steps (gen_test S) = num_steps preset"
    "g_embedding_size (gen_test S) = embedding_size preset"
    by (simp_all add: generate_arrays_from_list_def)
  from gen_next_batch_from_file [OF assms(3)] par obtain raw where
    "(xa, ya) \<in> set (fst (file_batches (g_embeddings (gen_test S)) (num_steps preset)
        (batch_size preset) (embedding_size preset) raw))"
    by auto
  then have sh: "has_shape3 xa (batch_size preset, num_steps preset, embedding_size preset)"
    "has_shape2 ya (batch_size preset, num_steps preset)"
    using file_batches_shape [OF surjective_pairing] by blast+
  have "\<not> has_shape3 xa (inputs_shape (s_mtest S)) \<and>
        \<not> has_shape2 ya (targets_shape (s_mtest S))"
    if "batch_size preset \<noteq> 1 \<or> num_steps preset \<noteq> 1"
    using shape3_differs [OF sh(1) that] shape2_differs [OF sh(2) that] m by simp
  with sh m par show ?thesis by blast
qed

text \<open>
  The theorem for the preset \<open>test\<close> and a test list of one file of thirty tokens: the
  first batch has the shapes \<open>(10, 2, 200)\<close> and \<open>(10, 2)\<close>.
\<close>

theorem test_batches_have_training_shape_witness:
  "main_config_phase (Some ''files.txt'') ''test'' zero_embeddings [] []
     [\<lparr>wc_words = 30, tokens = thirty_tokens\<rparr>] =
   Inr \<lparr>s_heap = [TestConfig\<lparr>vocab_size := 126930, epoch_size := - 1\<rparr>,
                  TestConfig\<lparr>batch_size := 1, num_steps := 1, vocab_size := 126930,
                             epoch_size := 29\<rparr>],
        s_config = 0, s_valid_config = 0, s_eval_config = 1,
        gen_train = generate_arrays_from_list ''Train'' [] zero_embeddings 2 10 200 126930,
        gen_valid = generate_arrays_from_list ''Validation'' [] zero_embeddings 2 10 200 126930,
        gen_test = generate_arrays_from_list ''Test'' [thirty_tokens] zero_embeddings
                     2 10 200 126930,
        s_m = \<lparr>m_config = 0, m_is_training = True, inputs_shape = (10, 2, 200),
                targets_shape = (10, 2)\<rparr>,
        s_mvalid = \<lparr>m_config = 0, m_is_training = False, inputs_shape = (10, 2, 200),
                targets_shape = (10, 2)\<rparr>,
        s_mtest = \<lparr>m_config = 1, m_is_training = False, inputs_shape = (1, 1, 200),
                targets_shape = (1, 1)\<rparr>\<rparr> \<and>
   get_config ''test'' = Inr TestConfig \<and>
   gen_next ((generate_arrays_from_list ''Test'' [thirty_tokens] zero_embeddings
                2 10 200 126930)\<lparr>g_pc := AtFile 0\<rparr>) =
     Some (Inr (replicate 10 [replicate 200 0, replicate 200 0], replicate 10 [5, 5]),
           (generate_arrays_from_list ''Test'' [thirty_tokens] zero_embeddings
                2 10 200 126930)\<lparr>g_pc := InFile 0 thirty_tokens 1\<rparr>) \<and>
   has_shape3 (replicate 10 [replicate 200 (0 :: real), replicate 200 0]) (10, 2, 200) \<and>
   has_shape2 (replicate 10 [5 :: int, 5]) (10, 2) \<and>
   \<not> has_shape3 (replicate 10 [replicate 200 (0 :: real), replicate 200 0]) (1, 1, 200) \<and>
   \<not> has_shape2 (replicate 10 [5 :: int, 5]) (1, 1)"
proof -
  let ?S = "\<lparr>s_heap = [TestConfig\<lparr>vocab_size := 126930, epoch_size := - 1\<rparr>,
                  TestConfig\<lparr>batch_size := 1, num_steps := 1, vocab_size := 126930,
                             epoch_size := 29\<rparr>],
        s_config = 0, s_valid_config = 0, s_eval_config = 1,
        gen_train = generate_arrays_from_list ''Train'' [] zero_embeddings 2 10 200 126930,
        gen_valid = generate_arrays_from_list ''Validation'' [] zero_embeddings 2 10 200 126930,
        gen_test = generate_arrays_from_list ''Test'' [thirty_tokens] zero_embeddings
                     2 10 200 126930,
        s_m = \<lparr>m_config = 0, m_is_training = True, inputs_shape = (10, 2, 200),
                targets_shape = (10, 2)\<rparr>,
        s_mvalid = \<lparr>m_config = 0, m_is_training = False, inputs_shape = (10, 2, 200),
                targets_shape = (10, 2)\<rparr>,
        s_mtest = \<lparr>m_config = 1, m_is_training = False, inputs_shape = (1, 1, 200),
                targets_shape = (1, 1)\<rparr>\<rparr>"
  have h1: "main_config_phase (Some ''files.txt'') ''test'' zero_embeddings [] []
     [\<lparr>wc_words = 30, tokens = thirty_tokens\<rparr>] = Inr ?S"
    by (simp add: main_config_phase_def get_config_def alloc_def get_epoch_size_def
        TestConfig_def WPModel_def Let_def)
  have h2: "get_config ''test'' = Inr TestConfig" by (simp add: get_config_def)
  have h3: "gen_next ((gen_test ?S)\<lparr>g_pc := AtFile 0\<rparr>) =
     Some (Inr (replicate 10 [replicate 200 0, replicate 200 0], replicate 10 [5, 5]),
           (generate_arrays_from_list ''Test'' [thirty_tokens] zero_embeddings
                2 10 200 126930)\<lparr>g_pc := InFile 0 thirty_tokens 1\<rparr>)"
    by (simp add: gen_next.simps generate_arrays_from_list_def thirty_token_batches)
  from test_batches_have_training_shape [OF h1 h2 h3] h1 h2 h3 show ?thesis
    by (simp add: TestConfig_def)
qed

end
